theory Spec2Isabelle
  imports Main "HOL-Library.Word" "HOL-Library.Char_ord" "HOL-Library.List_Lexorder"
begin

section \<open>Library semantics the program relies on\<close>

subsection \<open>Package time: instants, durations and the two clocks\<close>

text \<open>
  A \<^verbatim>\<open>time.Duration\<close> is a signed 64-bit count of nanoseconds; comparisons on it are
  signed. A \<^verbatim>\<open>time.Time\<close> holds a wall-clock instant and, when it was produced by
  \<^verbatim>\<open>time.Now()\<close>, a reading of the monotonic clock as well. The wall instant is counted
  here in nanoseconds from the instant of the zero value, January 1 of year 1, 00:00 UTC;
  the monotonic reading in nanoseconds from process start.
\<close>

type_synonym duration = "64 word"

definition minDuration :: int where
  "minDuration = - (2 ^ 63)"

definition maxDuration :: int where
  "maxDuration = 2 ^ 63 - 1"

record gotime =
  wall :: int
  mono :: "int option"

text \<open>The zero value of \<^verbatim>\<open>time.Time\<close>, which \<^verbatim>\<open>var lastDetected time.Time\<close> starts with.\<close>

definition zeroTime :: gotime where
  "zeroTime = \<lparr>wall = 0, mono = None\<rparr>"

text \<open>One reading of the system clocks, as a call of the time package obtains it.\<close>

record clock =
  wallNow :: int
  monoNow :: int

text \<open>\<^verbatim>\<open>time.Now()\<close>: the wall instant together with the monotonic reading.\<close>

definition timeNow :: "clock \<Rightarrow> gotime" where
  "timeNow c = \<lparr>wall = wallNow c, mono = Some (monoNow c)\<rparr>"

text \<open>
  Subtraction of instants saturates: \<^verbatim>\<open>Time.Sub\<close> and the monotonic subtraction return the
  largest (smallest) duration when the difference does not fit into 64 bits.
\<close>

definition saturate :: "int \<Rightarrow> duration" where
  "saturate d =
     (if d < minDuration then word_of_int minDuration
      else if maxDuration < d then word_of_int maxDuration
      else word_of_int d)"

text \<open>
  \<^verbatim>\<open>time.Since(t)\<close>: when \<^verbatim>\<open>t\<close> carries a monotonic reading the difference of the monotonic
  readings, otherwise \<^verbatim>\<open>time.Now().Sub(t)\<close> on the wall instants.
\<close>

definition timeSince :: "clock \<Rightarrow> gotime \<Rightarrow> duration" where
  "timeSince c t =
     (case mono t of
        Some m \<Rightarrow> saturate (monoNow c - m)
      | None \<Rightarrow> saturate (wallNow c - wall t))"

text \<open>The Unix epoch, counted from the zero instant (62135596800 seconds).\<close>

definition unixEpoch :: int where
  "unixEpoch = 62135596800 * 1000000000"

subsection \<open>Packages unicode/utf8 and strings: decoding and \<^verbatim>\<open>EqualFold\<close>\<close>

text \<open>
  A Go string is a sequence of bytes; \<^typ>\<open>string\<close> is a list of 8-bit characters and
  \<^term>\<open>of_char\<close> reads a byte as a number. Runes are numbers as well.
\<close>

definition RuneSelf :: nat where
  "RuneSelf = 0x80"

definition RuneError :: nat where
  "RuneError = 0xFFFD"

text \<open>
  \<^verbatim>\<open>utf8.DecodeRuneInString\<close>: the first rune of the string and its width in bytes. The
  first byte selects the width and the range accepted for the second byte; anything
  that is not a well-formed encoding yields \<^verbatim>\<open>(RuneError, 1)\<close>, the empty string
  \<^verbatim>\<open>(RuneError, 0)\<close>.
\<close>

fun DecodeRuneInString :: "string \<Rightarrow> nat \<times> nat" where
  "DecodeRuneInString [] = (RuneError, 0)"
| "DecodeRuneInString (c0 # rest) =
     (let s0 = (of_char c0 :: nat) in
      if s0 < RuneSelf then (s0, 1)
      else if s0 < 0xC2 \<or> 0xF4 < s0 then (RuneError, 1)
      else
        let sz = (if s0 < 0xE0 then 2 else if s0 < 0xF0 then 3 else 4 :: nat);
            lo = (if s0 = 0xE0 then 0xA0 else if s0 = 0xF0 then 0x90 else 0x80 :: nat);
            hi = (if s0 = 0xED then 0x9F else if s0 = 0xF4 then 0x8F else 0xBF :: nat)
        in
        if length rest + 1 < sz then (RuneError, 1)
        else
          let s1 = (of_char (rest ! 0) :: nat) in
          if s1 < lo \<or> hi < s1 then (RuneError, 1)
          else if sz \<le> 2 then ((s0 mod 0x20) * 0x40 + s1 mod 0x40, 2)
          else
            let s2 = (of_char (rest ! 1) :: nat) in
            if s2 < 0x80 \<or> 0xBF < s2 then (RuneError, 1)
            else if sz \<le> 3 then
              ((s0 mod 0x10) * 0x1000 + (s1 mod 0x40) * 0x40 + s2 mod 0x40, 3)
            else
              let s3 = (of_char (rest ! 2) :: nat) in
              if s3 < 0x80 \<or> 0xBF < s3 then (RuneError, 1)
              else
                ((s0 mod 8) * 0x40000 + (s1 mod 0x40) * 0x1000
                   + (s2 mod 0x40) * 0x40 + s3 mod 0x40, 4))"

text \<open>
  The test both loops of \<^verbatim>\<open>EqualFold\<close> apply to two different ASCII characters, once
  ordered so that \<^verbatim>\<open>sr < tr\<close>:
  \<^verbatim>\<open>'A' <= sr && sr <= 'Z' && tr == sr+'a'-'A'\<close>.
\<close>

definition asciiFoldPair :: "nat \<Rightarrow> nat \<Rightarrow> bool" where
  "asciiFoldPair sr tr = (0x41 \<le> sr \<and> sr \<le> 0x5A \<and> tr = sr + 0x20)"

text \<open>
  The case-folding tables of package unicode are data outside this repository. The
  orbit search \<^verbatim>\<open>r := unicode.SimpleFold(sr); for r != sr && r < tr { r = unicode.SimpleFold(r) }\<close>
  followed by \<^verbatim>\<open>r == tr\<close> is therefore a parameter \<open>orbit sr tr\<close> of the model; it is
  consulted only for \<^verbatim>\<open>sr < tr\<close> with \<^verbatim>\<open>tr\<close> outside ASCII.
\<close>

type_synonym foldtable = "nat \<Rightarrow> nat \<Rightarrow> bool"

text \<open>The part of a string that remains after its first rune, as \<^verbatim>\<open>range\<close> advances.\<close>

definition afterRune :: "string \<Rightarrow> string" where
  "afterRune s = drop (snd (DecodeRuneInString s)) s"

text \<open>Decoding a string that is not empty consumes at least one byte, so ranging ends.\<close>

lemma DecodeRuneInString_width: "s \<noteq> [] \<Longrightarrow> 0 < snd (DecodeRuneInString s)"
  by (cases s) (simp_all add: Let_def)

lemma afterRune_shorter: "s \<noteq> [] \<Longrightarrow> length (afterRune s) < length s"
  using DecodeRuneInString_width [of s] by (simp add: afterRune_def)

text \<open>
  The loop after the label \<^verbatim>\<open>hasUnicode\<close>: the runes of \<^verbatim>\<open>s\<close> are ranged over, the runes of
  \<^verbatim>\<open>t\<close> are taken off its front in step.
\<close>

function hasUnicode :: "foldtable \<Rightarrow> string \<Rightarrow> string \<Rightarrow> bool" where
  "hasUnicode orbit s t =
     (if s = [] then t = []
      else if t = [] then False
      else
        let sr0 = fst (DecodeRuneInString s);
            tr0 = (if of_char (hd t) < RuneSelf then of_char (hd t)
                   else fst (DecodeRuneInString t));
            t' = (if (of_char (hd t) :: nat) < RuneSelf then tl t else afterRune t);
            sr = min sr0 tr0;
            tr = max sr0 tr0
        in
        if tr0 = sr0 then hasUnicode orbit (afterRune s) t'
        else if tr < RuneSelf then
          (if asciiFoldPair sr tr then hasUnicode orbit (afterRune s) t' else False)
        else if orbit sr tr then hasUnicode orbit (afterRune s) t'
        else False)"
  by pat_completeness auto
termination
  by (relation "measure (\<lambda>(orbit, s, t). length s)") (auto simp: afterRune_shorter)

text \<open>
  \<^verbatim>\<open>strings.EqualFold\<close>, starting with the ASCII fast path. The recursion is on the two
  suffixes \<^verbatim>\<open>s[i:]\<close> and \<^verbatim>\<open>t[i:]\<close>. The test \<^verbatim>\<open>sr|tr >= utf8.RuneSelf\<close> on two bytes holds
  exactly when one of them has its top bit set.
\<close>

fun EqualFold :: "foldtable \<Rightarrow> string \<Rightarrow> string \<Rightarrow> bool" where
  "EqualFold orbit (a # s) (b # t) =
     (if RuneSelf \<le> (of_char a :: nat) \<or> RuneSelf \<le> (of_char b :: nat)
      then hasUnicode orbit (a # s) (b # t)
      else if (of_char b :: nat) = of_char a then EqualFold orbit s t
      else if asciiFoldPair (min (of_char a) (of_char b)) (max (of_char a) (of_char b))
      then EqualFold orbit s t
      else False)"
| "EqualFold orbit [] t = (length ([] :: string) = length t)"
| "EqualFold orbit (a # s) [] = (length (a # s) = length ([] :: string))"

declare hasUnicode.simps [simp del]

section \<open>Errors\<close>

text \<open>
  Errors are values. \<open>External\<close> is an error handed over by a collaborator (io, yaml, os,
  beeep, assets, mp3), opaque to this program. \<open>Errorf\<close> is \<^verbatim>\<open>fmt.Errorf\<close>: the format
  string, the string arguments in order, and the error wrapped by \<^verbatim>\<open>%w\<close> when there is one.
\<close>

datatype error =
    External string
  | Errorf string "string list" "error option"

section \<open>The configuration value\<close>

text \<open>
  \<^verbatim>\<open>types.TypeMeta\<close> has the two fields \<^verbatim>\<open>PopulateTypeMeta\<close> assigns; \<^verbatim>\<open>v1alpha1.Config\<close>
  embeds it inline.
\<close>

record TypeMeta =
  APIVersion :: string
  Kind :: string

record BrokerConfig =
  Address :: string
  Username :: string
  Password :: string

record Config = TypeMeta +
  Broker :: BrokerConfig
  TargetMAC :: string
  DetectionTimeout :: duration

section \<open>The subscription callback of \<^verbatim>\<open>run\<close>\<close>

text \<open>
  What the callback does to the outside world, in the order it does it: log records
  (message and attribute), the desktop notification, and the steps of the audio cue.
\<close>

datatype effect =
    LogDebug string string
  | LogInfo string string
  | LogWarn string error
  | BeeepNotify string string string
  | AssetsOpen string
  | Mp3Decode
  | SpeakerPlay

text \<open>
  One delivered message together with what the environment answers while the callback
  handles it: the payload, the clock reading \<^verbatim>\<open>time.Since\<close> takes, the clock reading
  \<^verbatim>\<open>time.Now\<close> takes, and the results of \<^verbatim>\<open>beeep.Notify\<close>, \<^verbatim>\<open>assets.Open\<close> and \<^verbatim>\<open>mp3.Decode\<close>
  (\<open>None\<close> is Go's \<^verbatim>\<open>nil\<close> error).
\<close>

record delivery =
  payload :: string
  sinceClock :: clock
  nowClock :: clock
  notifyResult :: "error option"
  openResult :: "error option"
  decodeResult :: "error option"

text \<open>\<^verbatim>\<open>playDoorbell\<close>: the effects performed and the error returned.\<close>

definition playDoorbell :: "delivery \<Rightarrow> effect list \<times> error option" where
  "playDoorbell d =
     (case openResult d of
        Some err \<Rightarrow>
          ([AssetsOpen ''doorbell.mp3''],
           Some (Errorf ''failed to open embedded sound asset: %w'' [] (Some err)))
      | None \<Rightarrow>
          (case decodeResult d of
             Some err \<Rightarrow>
               ([AssetsOpen ''doorbell.mp3'', Mp3Decode],
                Some (Errorf ''failed to decode MP3: %w'' [] (Some err)))
           | None \<Rightarrow>
               ([AssetsOpen ''doorbell.mp3'', Mp3Decode, SpeakerPlay], None)))"

text \<open>
  The function passed to \<^verbatim>\<open>client.Subscribe\<close>. Its state is the captured variable
  \<^verbatim>\<open>lastDetected\<close>; the result is the new value of that variable and the effects of the
  call. The callback returns nothing and has no failing exit. Holding \<^verbatim>\<open>lastDetectedMu\<close>
  from the match to the return makes the calls that match run one after the other,
  which is how a list of deliveries is processed here. The earlier version of \<^verbatim>\<open>run\<close>, kept
  among the sources, has the same callback with the target passed as an argument and the
  cooldown fixed at five minutes.
\<close>

definition onMessage ::
  "foldtable \<Rightarrow> 'a Config_scheme \<Rightarrow> string \<Rightarrow> gotime \<Rightarrow> delivery \<Rightarrow> gotime \<times> effect list" where
  "onMessage orbit conf catIconPath lastDetected d =
     (let mac = payload d;
          received = [LogDebug ''Received beacon from device'' mac]
      in
      if EqualFold orbit mac (TargetMAC conf) then
        if DetectionTimeout conf \<le>s timeSince (sinceClock d) lastDetected then
          let message = ''Device '' @ mac @ '' came into range'';
              notify = BeeepNotify ''Doorbell'' message catIconPath #
                (case notifyResult d of
                   Some err \<Rightarrow> [LogWarn ''Failed to raise notification'' err]
                 | None \<Rightarrow> []);
              play = fst (playDoorbell d) @
                (case snd (playDoorbell d) of
                   Some err \<Rightarrow> [LogWarn ''Failed to play doorbell sound'' err]
                 | None \<Rightarrow> [])
          in (timeNow (nowClock d),
              received @ [LogInfo ''Detected target device'' mac] @ notify @ play)
        else (lastDetected, received @ [LogDebug ''Ignoring beacon from device'' mac])
      else (lastDetected, received))"

text \<open>
  The deliveries of a run, handled in order from the initial \<^verbatim>\<open>lastDetected\<close>: the effects
  of each call, one list per delivery.
\<close>

fun deliverAll ::
  "foldtable \<Rightarrow> 'a Config_scheme \<Rightarrow> string \<Rightarrow> gotime \<Rightarrow> delivery list \<Rightarrow> effect list list" where
  "deliverAll orbit conf catIconPath lastDetected [] = []"
| "deliverAll orbit conf catIconPath lastDetected (d # ds) =
     snd (onMessage orbit conf catIconPath lastDetected d) #
     deliverAll orbit conf catIconPath (fst (onMessage orbit conf catIconPath lastDetected d)) ds"

section \<open>Loading the configuration\<close>

definition v1alpha1_APIVersion :: string where
  "v1alpha1_APIVersion = ''catdoorbell.github.com/v1alpha1''"

text \<open>The value \<^verbatim>\<open>&Config{}\<close>: every field at its zero value.\<close>

definition emptyConfig :: Config where
  "emptyConfig =
     \<lparr>APIVersion = [], Kind = [],
      Broker = \<lparr>Address = [], Username = [], Password = []\<rparr>,
      TargetMAC = [], DetectionTimeout = 0\<rparr>"

text \<open>
  The interface \<^verbatim>\<open>types.Config\<close> has one implementation, \<^verbatim>\<open>*v1alpha1.Config\<close>; a value of
  the interface is that variant.
\<close>

datatype versionedConfig = V1alpha1 Config

definition GetConfigByKind :: "string \<Rightarrow> error + versionedConfig" where
  "GetConfigByKind kind =
     (if kind = ''Config'' then Inr (V1alpha1 emptyConfig)
      else Inl (Errorf ''unsupported kind: %s'' [kind] None))"

text \<open>
  The type switch of \<^verbatim>\<open>migrateToLatest\<close>; its \<^verbatim>\<open>default\<close> branch has no value to apply to.
\<close>

fun migrateToLatest :: "versionedConfig \<Rightarrow> error + versionedConfig" where
  "migrateToLatest (V1alpha1 conf) = Inr (V1alpha1 conf)"

text \<open>
  The two uses of \<^verbatim>\<open>yaml.Unmarshal\<close>, a collaborator: decoding the document into a
  \<^verbatim>\<open>TypeMeta\<close>, and decoding it into the configuration value obtained for its kind.
\<close>

record yamlPackage =
  unmarshalTypeMeta :: "string \<Rightarrow> error + TypeMeta"
  unmarshalConfig :: "string \<Rightarrow> Config \<Rightarrow> error + Config"

text \<open>
  \<^verbatim>\<open>FromYAML\<close>. The reader is represented by what \<^verbatim>\<open>io.ReadAll\<close> returns for it. The
  result is the error or the configuration, never both.
\<close>

definition FromYAML :: "yamlPackage \<Rightarrow> error + string \<Rightarrow> error + Config" where
  "FromYAML yaml r =
     (case r of
        Inl err \<Rightarrow> Inl (Errorf ''failed to read config from reader: %w'' [] (Some err))
      | Inr confBytes \<Rightarrow>
          (case unmarshalTypeMeta yaml confBytes of
             Inl err \<Rightarrow>
               Inl (Errorf ''failed to unmarshal type meta from config file: %w'' [] (Some err))
           | Inr typeMeta \<Rightarrow>
               if APIVersion typeMeta = v1alpha1_APIVersion then
                 (case GetConfigByKind (Kind typeMeta) of
                    Inl err \<Rightarrow>
                      Inl (Errorf ''failed to get config by kind %q: %w'' [Kind typeMeta] (Some err))
                  | Inr (V1alpha1 versionedConf) \<Rightarrow>
                      (case unmarshalConfig yaml confBytes versionedConf of
                         Inl err \<Rightarrow>
                           Inl (Errorf ''failed to unmarshal config from config file: %w'' []
                                  (Some err))
                       | Inr decoded \<Rightarrow>
                           (case migrateToLatest (V1alpha1 decoded) of
                              Inl err \<Rightarrow> Inl (Errorf ''failed to migrate config: %w'' [] (Some err))
                            | Inr (V1alpha1 latest) \<Rightarrow> Inr latest)))
               else Inl (Errorf ''unsupported api version: %s'' [APIVersion typeMeta] None)))"

section \<open>Removing old logs\<close>

text \<open>
  The log directory as \<^verbatim>\<open>removeOldLogs\<close> meets it: the names it holds (each once, in no
  particular order), the error \<^verbatim>\<open>os.ReadDir\<close> fails with if it fails, and for each name
  the error \<^verbatim>\<open>os.Remove\<close> fails with if it fails (a directory that is not empty, a missing
  permission).
\<close>

record logDir =
  names :: "string list"
  readError :: "error option"
  removeError :: "string \<Rightarrow> error option"

text \<open>\<^verbatim>\<open>os.ReadDir\<close> returns the entries sorted by filename, which compares bytes.\<close>

definition ReadDir :: "logDir \<Rightarrow> error + string list" where
  "ReadDir dir = (case readError dir of Some err \<Rightarrow> Inl err | None \<Rightarrow> Inr (sort (names dir)))"

text \<open>\<^verbatim>\<open>os.Remove\<close> on the entry of that name.\<close>

definition Remove :: "logDir \<Rightarrow> string \<Rightarrow> error + logDir" where
  "Remove dir name =
     (case removeError dir name of
        Some err \<Rightarrow> Inl err
      | None \<Rightarrow> Inr (dir\<lparr>names := removeAll name (names dir)\<rparr>))"

text \<open>The \<^verbatim>\<open>for\<close> loop of \<^verbatim>\<open>removeOldLogs\<close>, which returns at the first removal that fails.\<close>

fun removeEntries :: "logDir \<Rightarrow> string list \<Rightarrow> logDir \<times> error option" where
  "removeEntries dir [] = (dir, None)"
| "removeEntries dir (entry # rest) =
     (case Remove dir entry of
        Inl err \<Rightarrow> (dir, Some (Errorf ''failed to remove old log entry: %w'' [] (Some err)))
      | Inr dir' \<Rightarrow> removeEntries dir' rest)"

text \<open>\<^verbatim>\<open>removeOldLogs\<close>: the directory afterwards and the error returned.\<close>

definition removeOldLogs :: "logDir \<Rightarrow> logDir \<times> error option" where
  "removeOldLogs dir =
     (case ReadDir dir of
        Inl err \<Rightarrow> (dir, Some (Errorf ''failed to read logs directory: %w'' [] (Some err)))
      | Inr entries \<Rightarrow>
          if length entries > 10
          then removeEntries dir (take (length entries - 10) entries)
          else (dir, None))"

section \<open>Reading the effects of a call\<close>

text \<open>
  A call accepted the sighting when it logged the detection; it raised an alert when it
  reached one of the two channels, the desktop notification (visual) or the steps of
  \<^verbatim>\<open>playDoorbell\<close> (audio).
\<close>

definition isDetection :: "effect \<Rightarrow> bool" where
  "isDetection e = (case e of LogInfo m _ \<Rightarrow> m = ''Detected target device'' | _ \<Rightarrow> False)"

definition accepted :: "effect list \<Rightarrow> bool" where
  "accepted effs = list_ex isDetection effs"

definition isVisual :: "effect \<Rightarrow> bool" where
  "isVisual e = (case e of BeeepNotify _ _ _ \<Rightarrow> True | _ \<Rightarrow> False)"

definition isAudio :: "effect \<Rightarrow> bool" where
  "isAudio e =
     (case e of AssetsOpen _ \<Rightarrow> True | Mp3Decode \<Rightarrow> True | SpeakerPlay \<Rightarrow> True | _ \<Rightarrow> False)"

definition isAlert :: "effect \<Rightarrow> bool" where
  "isAlert e = (isVisual e \<or> isAudio e)"

text \<open>The timestamp of a sighting: the monotonic reading at which its call looks at the clock.\<close>

definition timestamp :: "delivery \<Rightarrow> int" where
  "timestamp d = monoNow (sinceClock d)"

text \<open>
  The callback looks at the clock a second time when it accepts: \<^verbatim>\<open>time.Now()\<close>, after the
  test, gives the instant it stores in \<^verbatim>\<open>lastDetected\<close>. \<open>stored\<close> is the monotonic reading of
  that second look, and \<open>clockReads\<close> lists the readings of a run of calls in the order in
  which the calls would make them.
\<close>

definition stored :: "delivery \<Rightarrow> int" where
  "stored d = monoNow (nowClock d)"

definition clockReads :: "delivery list \<Rightarrow> int list" where
  "clockReads ds = concat (map (\<lambda>d. [timestamp d, stored d]) ds)"

section \<open>The debounce rule in the words of the specification\<close>

text \<open>
  For timestamps in order, a sighting is accepted when it is the first one or when its
  timestamp minus the timestamp of the last accepted one is at least the cooldown. The
  result marks the accepted indices.
\<close>

fun debounceSpec :: "int \<Rightarrow> int option \<Rightarrow> int list \<Rightarrow> bool list" where
  "debounceSpec cooldown lastAccepted [] = []"
| "debounceSpec cooldown lastAccepted (t # ts) =
     (if (case lastAccepted of None \<Rightarrow> True | Some l \<Rightarrow> cooldown \<le> t - l)
      then True # debounceSpec cooldown (Some t) ts
      else False # debounceSpec cooldown lastAccepted ts)"

text \<open>
  The same rule when an accepted sighting leaves behind another instant than its timestamp:
  each sighting comes as a pair of its timestamp and the instant it would store, and a
  sighting is accepted when it is the first one or when its timestamp minus the instant
  stored by the last accepted one is at least the cooldown.
\<close>

fun debounceStored :: "int \<Rightarrow> int option \<Rightarrow> (int \<times> int) list \<Rightarrow> bool list" where
  "debounceStored cooldown lastStored [] = []"
| "debounceStored cooldown lastStored ((t, t') # rest) =
     (if (case lastStored of None \<Rightarrow> True | Some l \<Rightarrow> cooldown \<le> t - l)
      then True # debounceStored cooldown (Some t') rest
      else False # debounceStored cooldown lastStored rest)"

section \<open>Identifiers up to letter case\<close>

text \<open>
  What the specification compares: identifiers made of ASCII bytes are the same up to letter
  case when they agree after lower-casing the letters A to Z.
\<close>

definition asciiLower :: "char \<Rightarrow> char" where
  "asciiLower c =
     (if 0x41 \<le> (of_char c :: nat) \<and> (of_char c :: nat) \<le> 0x5A
      then char_of (of_char c + 0x20 :: nat) else c)"

definition isASCII :: "string \<Rightarrow> bool" where
  "isASCII s = list_all (\<lambda>c. (of_char c :: nat) < RuneSelf) s"

text \<open>
  The runes of a string as \<^verbatim>\<open>range\<close> yields them, every byte that is not part of a well-formed
  encoding giving \<^verbatim>\<open>RuneError\<close>; and the comparison \<^verbatim>\<open>EqualFold\<close> makes on two runes: equal, or
  an ASCII letter and its other case, or a pair the folding table relates.
\<close>

function runes :: "string \<Rightarrow> nat list" where
  "runes s = (if s = [] then [] else fst (DecodeRuneInString s) # runes (afterRune s))"
  by pat_completeness auto
termination
  by (relation "measure length") (auto simp: afterRune_shorter)

declare runes.simps [simp del]

definition foldEq :: "foldtable \<Rightarrow> nat \<Rightarrow> nat \<Rightarrow> bool" where
  "foldEq orbit a b =
     (a = b \<or>
      (if max a b < RuneSelf then asciiFoldPair (min a b) (max a b)
       else orbit (min a b) (max a b)))"

section \<open>Hardware addresses in textual form\<close>

text \<open>
  The specification calls a payload malformed when it does not parse as the textual form of
  a hardware address; the program has no parser and hands the bytes to \<^verbatim>\<open>EqualFold\<close> as they
  are. The textual form meant is the one of the README, \<^verbatim>\<open>AA:BB:CC:DD:EE:FF\<close>: six pairs of
  hexadecimal digits of either case, separated by colons, seventeen bytes in all.
  \<open>addressFrom i s\<close> reads \<open>s\<close> as the part of an address that starts at position \<open>i\<close>.
\<close>

definition isHexDigit :: "char \<Rightarrow> bool" where
  "isHexDigit c =
     ((0x30 \<le> (of_char c :: nat) \<and> (of_char c :: nat) \<le> 0x39)
      \<or> (0x41 \<le> (of_char c :: nat) \<and> (of_char c :: nat) \<le> 0x46)
      \<or> (0x61 \<le> (of_char c :: nat) \<and> (of_char c :: nat) \<le> 0x66))"

definition addressByte :: "char \<Rightarrow> bool" where
  "addressByte c = (c = CHR '':'' \<or> isHexDigit c)"

definition addressChar :: "nat \<Rightarrow> char \<Rightarrow> bool" where
  "addressChar i c = (if i mod 3 = 2 then c = CHR '':'' else isHexDigit c)"

fun addressFrom :: "nat \<Rightarrow> string \<Rightarrow> bool" where
  "addressFrom i [] = (i = 17)"
| "addressFrom i (c # s) = (i < 17 \<and> addressChar i c \<and> addressFrom (Suc i) s)"

definition isHardwareAddress :: "string \<Rightarrow> bool" where
  "isHardwareAddress s = addressFrom 0 s"

section \<open>The entries before the last ten\<close>

text \<open>
  What \<^verbatim>\<open>removeOldLogs\<close> sets out to remove from a directory it can read: the entries of the
  sorted listing before its last ten, in that order.
\<close>

definition beforeLastTen :: "logDir \<Rightarrow> string list" where
  "beforeLastTen dir = take (length (names dir) - 10) (sort (names dir))"

section \<open>Sample inputs\<close>

text \<open>A folding table without entries: no case pairs beyond the ASCII letters.\<close>

definition emptyFoldTable :: foldtable where
  "emptyFoldTable = (\<lambda>sr tr. False)"

text \<open>A configuration watching for one address, with a cooldown of five minutes.\<close>

definition exampleConfig :: Config where
  "exampleConfig =
     emptyConfig\<lparr>TargetMAC := ''aa:bb:cc:dd:ee:ff'', DetectionTimeout := 300000000000\<rparr>"

text \<open>
  A message with the given payload whose call runs \<open>t\<close> nanoseconds after process start, on
  a wall clock of the year 2023, both alert channels working.
\<close>

definition beaconAt :: "string \<Rightarrow> int \<Rightarrow> delivery" where
  "beaconAt mac t =
     \<lparr>payload = mac,
      sinceClock = \<lparr>wallNow = unixEpoch + 1700000000000000000 + t, monoNow = t\<rparr>,
      nowClock = \<lparr>wallNow = unixEpoch + 1700000000000000000 + t, monoNow = t\<rparr>,
      notifyResult = None, openResult = None, decodeResult = None\<rparr>"

definition iconPath :: string where
  "iconPath = ''/tmp/cat-doorbell123/cat-icon.png''"

text \<open>
  A message whose call tests the clock at \<open>t\<close> and, if it accepts, stores the reading \<open>t'\<close>;
  and two sightings five minutes apart, each storing a reading one nanosecond after its
  test.
\<close>

definition beaconBetween :: "string \<Rightarrow> int \<Rightarrow> int \<Rightarrow> delivery" where
  "beaconBetween mac t t' =
     \<lparr>payload = mac,
      sinceClock = \<lparr>wallNow = unixEpoch + 1700000000000000000 + t, monoNow = t\<rparr>,
      nowClock = \<lparr>wallNow = unixEpoch + 1700000000000000000 + t', monoNow = t'\<rparr>,
      notifyResult = None, openResult = None, decodeResult = None\<rparr>"

definition gapRun :: "delivery list" where
  "gapRun = [beaconBetween ''AA:BB:CC:DD:EE:FF'' 0 1,
             beaconBetween ''AA:BB:CC:DD:EE:FF'' 300000000000 300000000001]"

text \<open>A configuration whose target is the three bytes that encode U+FFFD.\<close>

definition replacementConfig :: Config where
  "replacementConfig = exampleConfig\<lparr>TargetMAC := [CHR 0xEF, CHR 0xBF, CHR 0xBD]\<rparr>"


text \<open>
  Three documents and a decoder that knows them: one of another API version, one of another
  kind, and a good one. \<open>loadedConfig\<close> is what the good one decodes to.
\<close>

definition docOtherVersion :: string where
  "docOtherVersion = ''{apiVersion: catdoorbell.github.com/v2, kind: Config}''"

definition docOtherKind :: string where
  "docOtherKind = ''{apiVersion: catdoorbell.github.com/v1alpha1, kind: Settings}''"

definition docGood :: string where
  "docGood = ''{apiVersion: catdoorbell.github.com/v1alpha1, kind: Config, targetMAC: aa:bb:cc:dd:ee:ff, detectionTimeout: 5m}''"

definition loadedConfig :: Config where
  "loadedConfig = exampleConfig\<lparr>APIVersion := ''catdoorbell.github.com/v1alpha1'', Kind := ''Config''\<rparr>"

definition sampleYaml :: yamlPackage where
  "sampleYaml =
     \<lparr>unmarshalTypeMeta = (\<lambda>doc.
        if doc = docOtherVersion then Inr \<lparr>APIVersion = ''catdoorbell.github.com/v2'', Kind = ''Config''\<rparr>
        else if doc = docOtherKind then Inr \<lparr>APIVersion = ''catdoorbell.github.com/v1alpha1'', Kind = ''Settings''\<rparr>
        else if doc = docGood then Inr \<lparr>APIVersion = ''catdoorbell.github.com/v1alpha1'', Kind = ''Config''\<rparr>
        else Inl (External ''yaml: unmarshal errors'')),
      unmarshalConfig = (\<lambda>doc conf.
        if doc = docGood
        then Inr (conf\<lparr>APIVersion := ''catdoorbell.github.com/v1alpha1'', Kind := ''Config'',
                       TargetMAC := ''aa:bb:cc:dd:ee:ff'', DetectionTimeout := 300000000000\<rparr>)
        else Inl (External ''yaml: unmarshal errors''))\<rparr>"

text \<open>
  Log directories: twelve log files listed out of order, all removable; three of them;
  and the twelve with one that cannot be removed.
\<close>

definition sampleLogs :: "string list" where
  "sampleLogs =
     [''1700000012-4242-cat-doorbell.log'', ''1700000001-4242-cat-doorbell.log'',
      ''1700000002-4242-cat-doorbell.log'', ''1700000003-4242-cat-doorbell.log'',
      ''1700000004-4242-cat-doorbell.log'', ''1700000005-4242-cat-doorbell.log'',
      ''1700000006-4242-cat-doorbell.log'', ''1700000007-4242-cat-doorbell.log'',
      ''1700000008-4242-cat-doorbell.log'', ''1700000009-4242-cat-doorbell.log'',
      ''1700000010-4242-cat-doorbell.log'', ''1700000011-4242-cat-doorbell.log'']"

definition sampleDir :: logDir where
  "sampleDir = \<lparr>names = sampleLogs, readError = None, removeError = (\<lambda>name. None)\<rparr>"

definition smallDir :: logDir where
  "smallDir = \<lparr>names = take 3 sampleLogs, readError = None, removeError = (\<lambda>name. None)\<rparr>"

definition lockedDir :: logDir where
  "lockedDir =
     \<lparr>names = sampleLogs, readError = None,
      removeError = (\<lambda>name.
        if name = ''1700000002-4242-cat-doorbell.log''
        then Some (External ''remove: permission denied'') else None)\<rparr>"

section \<open>Durations and the clock\<close>

lemma sint_saturate:
  "sint (saturate x) =
     (if x < minDuration then minDuration else if maxDuration < x then maxDuration else x)"
  by (simp add: saturate_def minDuration_def maxDuration_def sint_sbintrunc'
      signed_take_bit_int_eq_self)

lemma sint_duration_bounds:
  "minDuration \<le> sint (d :: duration)" "sint (d :: duration) \<le> maxDuration"
  using sint_ge [of d] sint_lt [of d] by (simp_all add: minDuration_def maxDuration_def)

text \<open>
  On a wall clock at or after 1970 the zero instant lies more than 292 years back, so
  \<^verbatim>\<open>time.Since\<close> of it is the largest duration and no cooldown exceeds it.
\<close>

lemma timeSince_zeroTime: "unixEpoch \<le> wallNow c \<Longrightarrow> cd \<le>s timeSince c zeroTime"
  using sint_duration_bounds [of cd]
  by (simp add: word_sle_eq timeSince_def zeroTime_def sint_saturate unixEpoch_def
      maxDuration_def minDuration_def)

text \<open>
  Against an instant stored by \<^verbatim>\<open>time.Now()\<close> that the monotonic clock has not fallen behind,
  the saturating test is the test on the exact difference.
\<close>

lemma timeSince_mono:
  "m \<le> monoNow c \<Longrightarrow> mono t = Some m \<Longrightarrow>
   (cd \<le>s timeSince c t) = (sint cd \<le> monoNow c - m)"
  using sint_duration_bounds [of cd]
  by (auto simp: word_sle_eq timeSince_def sint_saturate minDuration_def maxDuration_def)

section \<open>The callback on a matching payload\<close>

lemma accepted_onMessage:
  "EqualFold orbit (payload d) (TargetMAC conf) \<Longrightarrow>
   accepted (snd (onMessage orbit conf icon st d))
     = (DetectionTimeout conf \<le>s timeSince (sinceClock d) st)"
  by (auto simp: onMessage_def Let_def accepted_def isDetection_def playDoorbell_def
      split: option.splits)

lemma fst_onMessage:
  "EqualFold orbit (payload d) (TargetMAC conf) \<Longrightarrow>
   fst (onMessage orbit conf icon st d) =
     (if DetectionTimeout conf \<le>s timeSince (sinceClock d) st then timeNow (nowClock d)
      else st)"
  by (simp add: onMessage_def Let_def)

lemma example_matches:
  "EqualFold emptyFoldTable (payload (beaconAt ''AA:BB:CC:DD:EE:FF'' t)) (TargetMAC exampleConfig)"
  by (simp add: beaconAt_def exampleConfig_def RuneSelf_def asciiFoldPair_def)



section \<open>The debounce rule over a run of sightings\<close>

lemma count_accepted: "length (filter accepted xs) = length (filter id (map accepted xs))"
  by (induction xs) auto

text \<open>
  Once an instant is stored and the clock does not run backwards, the calls on matching
  payloads accept by the rule on stored instants.
\<close>

lemma deliverAll_after_store:
  assumes "\<forall>d \<in> set ds. EqualFold orbit (payload d) (TargetMAC conf)"
      and "mono st = Some l"
      and "sorted (l # clockReads ds)"
  shows "map accepted (deliverAll orbit conf icon st ds)
           = debounceStored (sint (DetectionTimeout conf)) (Some l)
               (map (\<lambda>d. (timestamp d, stored d)) ds)"
  using assms
proof (induction ds arbitrary: st l)
  case Nil
  then show ?case by simp
next
  case (Cons d ds)
  have m: "EqualFold orbit (payload d) (TargetMAC conf)"
    using Cons.prems(1) by simp
  have rest: "\<forall>d \<in> set ds. EqualFold orbit (payload d) (TargetMAC conf)"
    using Cons.prems(1) by simp
  have reads: "clockReads (d # ds) = timestamp d # stored d # clockReads ds"
    by (simp add: clockReads_def)
  have le: "l \<le> monoNow (sinceClock d)"
    using Cons.prems(3) by (simp add: reads timestamp_def)
  have s1: "sorted (stored d # clockReads ds)"
    using Cons.prems(3) by (simp add: reads)
  have s2: "sorted (l # clockReads ds)"
    using Cons.prems(3) by (auto simp: reads)
  have test: "(DetectionTimeout conf \<le>s timeSince (sinceClock d) st)
                = (sint (DetectionTimeout conf) \<le> timestamp d - l)"
    using timeSince_mono [OF le Cons.prems(2)] by (simp add: timestamp_def)
  show ?case
  proof (cases "DetectionTimeout conf \<le>s timeSince (sinceClock d) st")
    case True
    have st': "fst (onMessage orbit conf icon st d) = timeNow (nowClock d)"
      using True m by (simp add: fst_onMessage)
    have "mono (timeNow (nowClock d)) = Some (stored d)"
      by (simp add: timeNow_def stored_def)
    from Cons.IH [OF rest this s1]
    have "map accepted (deliverAll orbit conf icon (timeNow (nowClock d)) ds)
            = debounceStored (sint (DetectionTimeout conf)) (Some (stored d))
                (map (\<lambda>d. (timestamp d, stored d)) ds)" .
    with True test m st' show ?thesis
      by (simp add: accepted_onMessage)
  next
    case False
    have st': "fst (onMessage orbit conf icon st d) = st"
      using False m by (simp add: fst_onMessage)
    from Cons.IH [OF rest Cons.prems(2) s2]
    have "map accepted (deliverAll orbit conf icon st ds)
            = debounceStored (sint (DetectionTimeout conf)) (Some l)
                (map (\<lambda>d. (timestamp d, stored d)) ds)" .
    with False test m st' show ?thesis
      by (simp add: accepted_onMessage)
  qed
qed

lemma debounceStored_same_reading:
  "debounceStored cooldown prev (map (\<lambda>t. (t, t)) ts) = debounceSpec cooldown prev ts"
  by (induction ts arbitrary: prev) simp_all

text \<open>
  C1, as the code has it. A run of matching sightings handled in order from process start,
  on a wall clock at or after 1970 and a monotonic clock whose readings do not decrease.
  A call reads the clock for its test (the timestamp of the sighting) and, when it accepts,
  once more for the instant it stores. The accepted sightings are the first one and every
  one whose timestamp minus the instant stored by the last accepted one is at least the
  cooldown, and so their number is the number of these indices. When every sighting stores
  its own timestamp, this is the rule of the specification: first sighting, or timestamp
  minus the timestamp of the last accepted one at least the cooldown.
\<close>

theorem debounce_invariant:
  assumes "\<forall>d \<in> set ds. EqualFold orbit (payload d) (TargetMAC conf)"
      and "\<forall>d \<in> set ds. unixEpoch \<le> wallNow (sinceClock d)"
      and "sorted (clockReads ds)"
  shows "map accepted (deliverAll orbit conf icon zeroTime ds)
           = debounceStored (sint (DetectionTimeout conf)) None
               (map (\<lambda>d. (timestamp d, stored d)) ds)
       \<and> length (filter accepted (deliverAll orbit conf icon zeroTime ds))
           = length (filter id
               (debounceStored (sint (DetectionTimeout conf)) None
                  (map (\<lambda>d. (timestamp d, stored d)) ds)))
       \<and> ((\<forall>d \<in> set ds. stored d = timestamp d) \<longrightarrow>
            map accepted (deliverAll orbit conf icon zeroTime ds)
              = debounceSpec (sint (DetectionTimeout conf)) None (map timestamp ds)
            \<and> length (filter accepted (deliverAll orbit conf icon zeroTime ds))
              = length (filter id
                  (debounceSpec (sint (DetectionTimeout conf)) None (map timestamp ds))))"
proof -
  have main: "map accepted (deliverAll orbit conf icon zeroTime ds)
           = debounceStored (sint (DetectionTimeout conf)) None
               (map (\<lambda>d. (timestamp d, stored d)) ds)"
  proof (cases ds)
    case Nil
    then show ?thesis by simp
  next
    case (Cons d ds')
    have m: "EqualFold orbit (payload d) (TargetMAC conf)"
      using assms(1) Cons by simp
    have rest: "\<forall>d \<in> set ds'. EqualFold orbit (payload d) (TargetMAC conf)"
      using assms(1) Cons by simp
    have due: "DetectionTimeout conf \<le>s timeSince (sinceClock d) zeroTime"
      using assms(2) Cons by (simp add: timeSince_zeroTime)
    have st': "fst (onMessage orbit conf icon zeroTime d) = timeNow (nowClock d)"
      using due m by (simp add: fst_onMessage)
    have s1: "sorted (stored d # clockReads ds')"
      using assms(3) Cons by (simp add: clockReads_def)
    have "mono (timeNow (nowClock d)) = Some (stored d)"
      by (simp add: timeNow_def stored_def)
    from deliverAll_after_store [OF rest this s1]
    have "map accepted (deliverAll orbit conf icon (timeNow (nowClock d)) ds')
            = debounceStored (sint (DetectionTimeout conf)) (Some (stored d))
                (map (\<lambda>d. (timestamp d, stored d)) ds')" .
    with due m st' Cons show ?thesis
      by (simp add: accepted_onMessage)
  qed
  have cnt: "length (filter accepted (deliverAll orbit conf icon zeroTime ds))
           = length (filter id
               (debounceStored (sint (DetectionTimeout conf)) None
                  (map (\<lambda>d. (timestamp d, stored d)) ds)))"
    using main count_accepted [of "deliverAll orbit conf icon zeroTime ds"] by simp
  have same: "debounceStored (sint (DetectionTimeout conf)) None
                  (map (\<lambda>d. (timestamp d, stored d)) ds)
                = debounceSpec (sint (DetectionTimeout conf)) None (map timestamp ds)"
    if "\<forall>d \<in> set ds. stored d = timestamp d"
  proof -
    from that have "map (\<lambda>d. (timestamp d, stored d)) ds
        = map (\<lambda>t. (t, t)) (map timestamp ds)"
      by simp
    then show ?thesis
      by (simp only: debounceStored_same_reading)
  qed
  from main cnt same show ?thesis
    by simp
qed

lemma gap_matches:
  "EqualFold emptyFoldTable (payload (beaconBetween ''AA:BB:CC:DD:EE:FF'' t t'))
     (TargetMAC exampleConfig)"
  by (simp add: beaconBetween_def exampleConfig_def RuneSelf_def asciiFoldPair_def)

text \<open>
  Cooldown five minutes. Sightings at 0 s, 60 s, 301 s and 302 s that store their own
  timestamps: those at 0 s and 301 s are accepted, two in all. Sightings at 0 s and 300 s
  that store a reading one nanosecond later: only the first is accepted.
\<close>

theorem debounce_invariant_witness:
  "map accepted (deliverAll emptyFoldTable exampleConfig iconPath zeroTime
      (map (beaconAt ''AA:BB:CC:DD:EE:FF'') [0, 60000000000, 301000000000, 302000000000]))
     = [True, False, True, False]
   \<and> length (filter accepted (deliverAll emptyFoldTable exampleConfig iconPath zeroTime
      (map (beaconAt ''AA:BB:CC:DD:EE:FF'') [0, 60000000000, 301000000000, 302000000000])))
     = 2
   \<and> map accepted (deliverAll emptyFoldTable exampleConfig iconPath zeroTime gapRun)
     = [True, False]"
proof -
  let ?ds = "map (beaconAt ''AA:BB:CC:DD:EE:FF'') [0, 60000000000, 301000000000, 302000000000]"
  have 1: "\<forall>d \<in> set ?ds. EqualFold emptyFoldTable (payload d) (TargetMAC exampleConfig)"
    by (simp add: example_matches)
  have 2: "\<forall>d \<in> set ?ds. unixEpoch \<le> wallNow (sinceClock d)"
    by (simp add: beaconAt_def)
  have 3: "sorted (clockReads ?ds)"
    by (simp add: clockReads_def beaconAt_def timestamp_def stored_def)
  have 4: "\<forall>d \<in> set ?ds. stored d = timestamp d"
    by (simp add: beaconAt_def timestamp_def stored_def)
  have 5: "debounceSpec (sint (DetectionTimeout exampleConfig)) None (map timestamp ?ds)
            = [True, False, True, False]"
    by (simp add: beaconAt_def timestamp_def exampleConfig_def)
  have g1: "\<forall>d \<in> set gapRun. EqualFold emptyFoldTable (payload d) (TargetMAC exampleConfig)"
    by (simp add: gapRun_def gap_matches)
  have g2: "\<forall>d \<in> set gapRun. unixEpoch \<le> wallNow (sinceClock d)"
    by (simp add: gapRun_def beaconBetween_def)
  have g3: "sorted (clockReads gapRun)"
    by (simp add: clockReads_def gapRun_def beaconBetween_def timestamp_def stored_def)
  have g4: "debounceStored (sint (DetectionTimeout exampleConfig)) None
              (map (\<lambda>d. (timestamp d, stored d)) gapRun) = [True, False]"
    by (simp add: gapRun_def beaconBetween_def timestamp_def stored_def exampleConfig_def)
  from debounce_invariant [OF 1 2 3, of iconPath] debounce_invariant [OF g1 g2 g3, of iconPath]
    4 5 g4
  show ?thesis by simp
qed

text \<open>
  The rule on timestamps alone fails on these two sightings: their timestamps, 0 s and
  300 s, are five minutes apart, so the rule accepts both; the first call stores a reading
  one nanosecond after its test, so the second call finds one nanosecond less than the
  cooldown and suppresses its sighting.
\<close>

theorem debounce_invariant_counterexample:
  "list_all (\<lambda>d. EqualFold emptyFoldTable (payload d) (TargetMAC exampleConfig)) gapRun
   \<and> map timestamp gapRun = [0, 300000000000]
   \<and> sorted (map timestamp gapRun)
   \<and> map accepted (deliverAll emptyFoldTable exampleConfig iconPath zeroTime gapRun)
       = [True, False]
   \<and> debounceSpec (sint (DetectionTimeout exampleConfig)) None (map timestamp gapRun)
       = [True, True]
   \<and> length (filter accepted (deliverAll emptyFoldTable exampleConfig iconPath zeroTime gapRun))
       = 1
   \<and> length (filter id
        (debounceSpec (sint (DetectionTimeout exampleConfig)) None (map timestamp gapRun)))
       = 2"
proof -
  let ?d0 = "beaconBetween ''AA:BB:CC:DD:EE:FF'' 0 1"
  let ?d1 = "beaconBetween ''AA:BB:CC:DD:EE:FF'' 300000000000 300000000001"
  have ts: "map timestamp gapRun = [0, 300000000000]"
    by (simp add: gapRun_def beaconBetween_def timestamp_def)
  have due0: "DetectionTimeout exampleConfig \<le>s timeSince (sinceClock ?d0) zeroTime"
    by (rule timeSince_zeroTime) (simp add: beaconBetween_def)
  have early1: "\<not> DetectionTimeout exampleConfig
      \<le>s timeSince (sinceClock ?d1) (timeNow (nowClock ?d0))"
    by (simp add: beaconBetween_def exampleConfig_def timeSince_def timeNow_def word_sle_eq
        sint_saturate minDuration_def maxDuration_def)
  have run: "map accepted (deliverAll emptyFoldTable exampleConfig iconPath zeroTime gapRun)
       = [True, False]"
    using due0 early1
    by (simp add: gapRun_def accepted_onMessage [OF gap_matches] fst_onMessage [OF gap_matches])
  have spec: "debounceSpec (sint (DetectionTimeout exampleConfig)) None (map timestamp gapRun)
       = [True, True]"
    unfolding ts by (simp add: exampleConfig_def)
  have cnt: "length (filter accepted
      (deliverAll emptyFoldTable exampleConfig iconPath zeroTime gapRun)) = 1"
    unfolding count_accepted run by simp
  have m: "list_all (\<lambda>d. EqualFold emptyFoldTable (payload d) (TargetMAC exampleConfig)) gapRun"
    by (simp add: gapRun_def gap_matches)
  show ?thesis
    unfolding spec using m ts run cnt by simp
qed

section \<open>Sightings at one instant, one after the other\<close>

lemma debounceStored_same_instant:
  "0 < cooldown \<Longrightarrow> \<forall>p \<in> set ps. p = (t, t) \<Longrightarrow>
   debounceStored cooldown (Some t) ps = map (\<lambda>x. False) ps"
  by (induction ps) simp_all

lemma sorted_same_reading: "\<forall>x \<in> set xs. x = (l::int) \<Longrightarrow> sorted xs"
  by (induction xs) auto

text \<open>
  Calls that take their turn at one and the same instant, in whatever order, with a
  positive cooldown: the first one accepts and no other does.
\<close>

lemma burst_accepts_first_only:
  assumes "\<forall>d \<in> set (d0 # ds). EqualFold orbit (payload d) (TargetMAC conf)"
      and "\<forall>d \<in> set (d0 # ds). nowClock d = c \<and> sinceClock d = c"
      and "unixEpoch \<le> wallNow c"
      and "0 < sint (DetectionTimeout conf)"
  shows "map accepted (deliverAll orbit conf icon zeroTime (d0 # ds))
           = True # map (\<lambda>d. False) ds"
proof -
  have m: "EqualFold orbit (payload d0) (TargetMAC conf)"
    using assms(1) by simp
  have rest: "\<forall>d \<in> set ds. EqualFold orbit (payload d) (TargetMAC conf)"
    using assms(1) by simp
  have c0: "nowClock d0 = c" "sinceClock d0 = c"
    using assms(2) by simp_all
  have due: "DetectionTimeout conf \<le>s timeSince (sinceClock d0) zeroTime"
    using assms(3) c0 by (simp add: timeSince_zeroTime)
  have st: "fst (onMessage orbit conf icon zeroTime d0) = timeNow c"
    using m due c0 by (simp add: fst_onMessage)
  have same: "\<forall>p \<in> set (map (\<lambda>d. (timestamp d, stored d)) ds). p = (monoNow c, monoNow c)"
    using assms(2) by (auto simp: timestamp_def stored_def)
  have "\<forall>x \<in> set (monoNow c # clockReads ds). x = monoNow c"
    using assms(2) by (auto simp: clockReads_def timestamp_def stored_def)
  then have srt: "sorted (monoNow c # clockReads ds)"
    by (rule sorted_same_reading)
  have mn: "mono (timeNow c) = Some (monoNow c)"
    by (simp add: timeNow_def)
  have "map accepted (deliverAll orbit conf icon (timeNow c) ds)
          = debounceStored (sint (DetectionTimeout conf)) (Some (monoNow c))
              (map (\<lambda>d. (timestamp d, stored d)) ds)"
    using rest mn srt by (rule deliverAll_after_store)
  also have "\<dots> = map (\<lambda>x. False) (map (\<lambda>d. (timestamp d, stored d)) ds)"
    using assms(4) same by (rule debounceStored_same_instant)
  finally show ?thesis
    using m due st by (simp add: accepted_onMessage)
qed

text \<open>A hundred sightings of the target at process start, cooldown five minutes.\<close>

lemma hundred_at_once:
  "length (filter accepted
     (deliverAll emptyFoldTable exampleConfig iconPath zeroTime
        (replicate 100 (beaconAt ''AA:BB:CC:DD:EE:FF'' 0)))) = 1"
proof -
  let ?d = "beaconAt ''AA:BB:CC:DD:EE:FF'' 0"
  have r: "replicate 100 ?d = ?d # replicate 99 ?d"
    by (simp add: replicate_Suc [symmetric] del: replicate_Suc)
  have "map accepted (deliverAll emptyFoldTable exampleConfig iconPath zeroTime (?d # replicate 99 ?d))
          = True # map (\<lambda>d. False) (replicate 99 ?d)"
    by (rule burst_accepts_first_only [where c = "sinceClock ?d"])
      (simp_all add: example_matches, simp_all add: beaconAt_def exampleConfig_def)
  then have "length (filter id (map accepted
      (deliverAll emptyFoldTable exampleConfig iconPath zeroTime (replicate 100 ?d)))) = 1"
    unfolding r by simp
  then show ?thesis
    by (simp only: count_accepted)
qed

section \<open>Payloads that do not match\<close>

text \<open>
  C4. A sighting whose identifier does not match the configured target leaves
  \<^verbatim>\<open>lastDetected\<close> as it was, is not accepted, and reaches neither the notification nor the
  audio channel.
\<close>

theorem nonmatching_isolation:
  assumes "\<not> EqualFold orbit (payload d) (TargetMAC conf)"
  shows "fst (onMessage orbit conf icon lastDetected d) = lastDetected
       \<and> \<not> accepted (snd (onMessage orbit conf icon lastDetected d))
       \<and> \<not> list_ex isAlert (snd (onMessage orbit conf icon lastDetected d))"
  using assms
  by (simp add: onMessage_def Let_def isAlert_def isVisual_def isAudio_def accepted_def
      isDetection_def)

text \<open>Another device is sighted five minutes after the target was.\<close>

theorem nonmatching_isolation_witness:
  "\<not> EqualFold emptyFoldTable (payload (beaconAt ''11:22:33:44:55:66'' 300000000000))
       (TargetMAC exampleConfig)
   \<and> fst (onMessage emptyFoldTable exampleConfig iconPath
            (timeNow (nowClock (beaconAt ''AA:BB:CC:DD:EE:FF'' 0)))
            (beaconAt ''11:22:33:44:55:66'' 300000000000))
       = timeNow (nowClock (beaconAt ''AA:BB:CC:DD:EE:FF'' 0))
   \<and> \<not> accepted (snd (onMessage emptyFoldTable exampleConfig iconPath
            (timeNow (nowClock (beaconAt ''AA:BB:CC:DD:EE:FF'' 0)))
            (beaconAt ''11:22:33:44:55:66'' 300000000000)))
   \<and> \<not> list_ex isAlert (snd (onMessage emptyFoldTable exampleConfig iconPath
            (timeNow (nowClock (beaconAt ''AA:BB:CC:DD:EE:FF'' 0)))
            (beaconAt ''11:22:33:44:55:66'' 300000000000)))"
proof -
  have other: "\<not> EqualFold emptyFoldTable
      (payload (beaconAt ''11:22:33:44:55:66'' 300000000000)) (TargetMAC exampleConfig)"
    by (simp add: beaconAt_def exampleConfig_def RuneSelf_def asciiFoldPair_def)
  from nonmatching_isolation [OF other] other show ?thesis
    by simp
qed

section \<open>The two alert channels\<close>







lemma snd_onMessage_accept:
  assumes "EqualFold orbit (payload d) (TargetMAC conf)"
      and "DetectionTimeout conf \<le>s timeSince (sinceClock d) lastDetected"
  shows "snd (onMessage orbit conf icon lastDetected d) =
           [LogDebug ''Received beacon from device'' (payload d),
            LogInfo ''Detected target device'' (payload d),
            BeeepNotify ''Doorbell'' (''Device '' @ payload d @ '' came into range'') icon]
           @ (case notifyResult d of
                Some err \<Rightarrow> [LogWarn ''Failed to raise notification'' err] | None \<Rightarrow> [])
           @ fst (playDoorbell d)
           @ (case snd (playDoorbell d) of
                Some err \<Rightarrow> [LogWarn ''Failed to play doorbell sound'' err] | None \<Rightarrow> [])"
  using assms by (simp add: onMessage_def Let_def)




section \<open>The configuration loader\<close>

text \<open>
  C7. For a document whose type meta decodes: when its \<^verbatim>\<open>apiVersion\<close> is not the supported
  one, \<^verbatim>\<open>FromYAML\<close> returns the error "unsupported api version" and no configuration; when
  the version is the supported one and its \<^verbatim>\<open>kind\<close> is not \<^verbatim>\<open>Config\<close>, it returns the error of
  \<^verbatim>\<open>GetConfigByKind\<close>, "unsupported kind", wrapped, and no configuration. A configuration is
  returned exactly when the reader could be read, the type meta decodes with the supported
  version and kind, and the whole document decodes; it is the decoded value.
\<close>

theorem config_loader:
  "(unmarshalTypeMeta yaml confBytes = Inr typeMeta \<and> APIVersion typeMeta \<noteq> v1alpha1_APIVersion \<longrightarrow>
      FromYAML yaml (Inr confBytes)
        = Inl (Errorf ''unsupported api version: %s'' [APIVersion typeMeta] None))
   \<and> (unmarshalTypeMeta yaml confBytes = Inr typeMeta \<and> APIVersion typeMeta = v1alpha1_APIVersion
        \<and> Kind typeMeta \<noteq> ''Config'' \<longrightarrow>
      FromYAML yaml (Inr confBytes)
        = Inl (Errorf ''failed to get config by kind %q: %w'' [Kind typeMeta]
                 (Some (Errorf ''unsupported kind: %s'' [Kind typeMeta] None))))
   \<and> (FromYAML yaml r = Inr conf \<longleftrightarrow>
        (\<exists>doc meta. r = Inr doc \<and> unmarshalTypeMeta yaml doc = Inr meta
           \<and> APIVersion meta = v1alpha1_APIVersion \<and> Kind meta = ''Config''
           \<and> unmarshalConfig yaml doc emptyConfig = Inr conf))"
  by (auto simp: FromYAML_def GetConfigByKind_def split: sum.splits versionedConfig.splits)

text \<open>The three sample documents: two are refused with the errors above, one is loaded.\<close>

theorem config_loader_witness:
  "FromYAML sampleYaml (Inr docOtherVersion)
     = Inl (Errorf ''unsupported api version: %s'' [''catdoorbell.github.com/v2''] None)
   \<and> FromYAML sampleYaml (Inr docOtherKind)
     = Inl (Errorf ''failed to get config by kind %q: %w'' [''Settings'']
              (Some (Errorf ''unsupported kind: %s'' [''Settings''] None)))
   \<and> FromYAML sampleYaml (Inr docGood) = Inr loadedConfig"
proof -
  have 1: "unmarshalTypeMeta sampleYaml docOtherVersion = Inr \<lparr>APIVersion = ''catdoorbell.github.com/v2'', Kind = ''Config''\<rparr>"
    by (simp add: sampleYaml_def)
  have 2: "unmarshalTypeMeta sampleYaml docOtherKind = Inr \<lparr>APIVersion = ''catdoorbell.github.com/v1alpha1'', Kind = ''Settings''\<rparr>"
    by (simp add: sampleYaml_def docOtherKind_def docOtherVersion_def)
  have 3: "unmarshalTypeMeta sampleYaml docGood = Inr \<lparr>APIVersion = ''catdoorbell.github.com/v1alpha1'', Kind = ''Config''\<rparr>"
    by (simp add: sampleYaml_def docOtherKind_def docOtherVersion_def docGood_def)
  have 4: "unmarshalConfig sampleYaml docGood emptyConfig = Inr loadedConfig"
    by (simp add: sampleYaml_def loadedConfig_def exampleConfig_def emptyConfig_def)
  from config_loader [of sampleYaml docOtherVersion "\<lparr>APIVersion = ''catdoorbell.github.com/v2'', Kind = ''Config''\<rparr>"]
    config_loader [of sampleYaml docOtherKind "\<lparr>APIVersion = ''catdoorbell.github.com/v1alpha1'', Kind = ''Settings''\<rparr>"]
    config_loader [of sampleYaml _ _ "Inr docGood" loadedConfig]
    1 2 3 4
  show ?thesis
    by (simp add: v1alpha1_APIVersion_def)
qed


section \<open>Old logs\<close>

lemma removeError_names_update [simp]:
  "removeError (dir\<lparr>names := ns\<rparr>) = removeError dir"
  by simp

lemma removeEntries_general:
  "removeEntries dir es =
     (dir\<lparr>names := filter (\<lambda>n. n \<notin> set (takeWhile (\<lambda>e. removeError dir e = None) es)) (names dir)\<rparr>,
      case dropWhile (\<lambda>e. removeError dir e = None) es of
        [] \<Rightarrow> None
      | e # _ \<Rightarrow> Some (Errorf ''failed to remove old log entry: %w'' [] (removeError dir e)))"
proof (induction es arbitrary: dir)
  case Nil
  then show ?case by simp
next
  case (Cons e es)
  show ?case
  proof (cases "removeError dir e")
    case None
    let ?ok = "\<lambda>e. removeError dir e = None"
    have tw: "takeWhile ?ok (e # es) = e # takeWhile ?ok es"
      and dw: "dropWhile ?ok (e # es) = dropWhile ?ok es"
      using None by simp_all
    have flt: "filter (\<lambda>n. n \<notin> set (e # takeWhile ?ok es)) (names dir)
        = filter (\<lambda>n. n \<notin> set (takeWhile ?ok es)) (removeAll e (names dir))"
      by (auto simp: removeAll_filter_not_eq intro!: filter_cong)
    define dir' where "dir' = dir\<lparr>names := removeAll e (names dir)\<rparr>"
    have step: "removeEntries dir (e # es) = removeEntries dir' es"
      using None by (simp add: Remove_def dir'_def)
    have re: "removeError dir' = removeError dir"
      and upd: "dir'\<lparr>names := ns\<rparr> = dir\<lparr>names := ns\<rparr>"
      and nm: "names dir' = removeAll e (names dir)" for ns
      by (simp_all add: dir'_def)
    show ?thesis
      unfolding step Cons.IH [of dir'] re upd nm tw dw flt ..
  next
    case (Some err)
    then show ?thesis by (simp add: Remove_def)
  qed
qed

lemma filter_not_in_take:
  assumes "distinct xs"
  shows "filter (\<lambda>x. x \<notin> set (take k xs)) xs = drop k xs"
proof -
  have "distinct (take k xs @ drop k xs)"
    using assms by simp
  then have disj: "set (take k xs) \<inter> set (drop k xs) = {}"
    by (simp only: distinct_append)
  have 1: "filter (\<lambda>x. x \<notin> set (take k xs)) (take k xs) = []"
    by (simp add: filter_empty_conv)
  have 2: "filter (\<lambda>x. x \<notin> set (take k xs)) (drop k xs) = drop k xs"
    using disj by (auto simp: filter_id_conv)
  have "filter (\<lambda>x. x \<notin> set (take k xs)) (take k xs @ drop k xs) = drop k xs"
    unfolding filter_append 1 2 by simp
  then show ?thesis by simp
qed


lemma sort_sampleLogs:
  "sort sampleLogs =
     [''1700000001-4242-cat-doorbell.log'', ''1700000002-4242-cat-doorbell.log'',
      ''1700000003-4242-cat-doorbell.log'', ''1700000004-4242-cat-doorbell.log'',
      ''1700000005-4242-cat-doorbell.log'', ''1700000006-4242-cat-doorbell.log'',
      ''1700000007-4242-cat-doorbell.log'', ''1700000008-4242-cat-doorbell.log'',
      ''1700000009-4242-cat-doorbell.log'', ''1700000010-4242-cat-doorbell.log'',
      ''1700000011-4242-cat-doorbell.log'', ''1700000012-4242-cat-doorbell.log'']"
  by (simp add: sampleLogs_def less_eq_char_def less_char_def)

lemma removeOldLogs_few:
  "readError dir = None \<Longrightarrow> length (names dir) \<le> 10 \<Longrightarrow> removeOldLogs dir = (dir, None)"
  by (simp add: removeOldLogs_def ReadDir_def)

lemma removeOldLogs_many:
  "readError dir = None \<Longrightarrow> 10 < length (names dir) \<Longrightarrow>
   removeOldLogs dir = removeEntries dir (take (length (names dir) - 10) (sort (names dir)))"
  by (simp add: removeOldLogs_def ReadDir_def)

lemma names_removeEntries:
  "names (fst (removeEntries dir es))
     = filter (\<lambda>n. n \<notin> set (takeWhile (\<lambda>e. removeError dir e = None) es)) (names dir)"
  by (simp add: removeEntries_general)

lemma removeEntries_all_ok:
  assumes "\<forall>e \<in> set es. removeError dir e = None"
  shows "removeEntries dir es = (dir\<lparr>names := filter (\<lambda>n. n \<notin> set es) (names dir)\<rparr>, None)"
proof -
  from assms have tw: "takeWhile (\<lambda>e. removeError dir e = None) es = es"
    and dw: "dropWhile (\<lambda>e. removeError dir e = None) es = []"
    by simp_all
  show ?thesis
    unfolding removeEntries_general tw dw by simp
qed

lemma removeOldLogs_all_ok:
  assumes rd: "readError dir = None" and d: "distinct (names dir)"
    and big: "10 < length (names dir)"
    and ok: "\<forall>e \<in> set (take (length (names dir) - 10) (sort (names dir))). removeError dir e = None"
  shows "snd (removeOldLogs dir) = None"
    and "sort (names (fst (removeOldLogs dir))) = drop (length (names dir) - 10) (sort (names dir))"
    and "length (names (fst (removeOldLogs dir))) = 10"
proof -
  let ?k = "length (names dir) - 10"
  let ?victims = "take ?k (sort (names dir))"
  have res: "removeOldLogs dir = (dir\<lparr>names := filter (\<lambda>n. n \<notin> set ?victims) (names dir)\<rparr>, None)"
    using removeOldLogs_many [OF rd big] removeEntries_all_ok [OF ok] by simp
  then show "snd (removeOldLogs dir) = None"
    by simp
  have "sort (filter (\<lambda>n. n \<notin> set ?victims) (names dir))
          = filter (\<lambda>n. n \<notin> set ?victims) (sort (names dir))"
    by (simp add: filter_sort)
  also have "\<dots> = drop ?k (sort (names dir))"
    by (rule filter_not_in_take) (simp add: d)
  finally show srt: "sort (names (fst (removeOldLogs dir))) = drop ?k (sort (names dir))"
    by (simp add: res)
  have "length (sort (names (fst (removeOldLogs dir)))) = 10"
    unfolding srt using big by simp
  then show "length (names (fst (removeOldLogs dir))) = 10"
    by simp
qed

lemma removeOldLogs_keeps:
  assumes rd: "readError dir = None" and d: "distinct (names dir)"
  shows "set (drop (length (names dir) - 10) (sort (names dir)))
           \<subseteq> set (names (fst (removeOldLogs dir)))"
    and "set (names (fst (removeOldLogs dir))) \<subseteq> set (names dir)"
proof -
  let ?k = "length (names dir) - 10"
  let ?victims = "take ?k (sort (names dir))"
  let ?ok = "\<lambda>e. removeError dir e = None"
  have "distinct (take ?k (sort (names dir)) @ drop ?k (sort (names dir)))"
    using d by simp
  then have disj: "set ?victims \<inter> set (drop ?k (sort (names dir))) = {}"
    by (simp only: distinct_append)
  have in_names: "x \<in> set (names dir)" if "x \<in> set (drop ?k (sort (names dir)))" for x
    using in_set_dropD [OF that] by simp
  have not_victim: "x \<notin> set (takeWhile ?ok ?victims)" if "x \<in> set (drop ?k (sort (names dir)))" for x
    using that disj set_takeWhileD [of x ?ok ?victims] by blast
  show "set (drop ?k (sort (names dir))) \<subseteq> set (names (fst (removeOldLogs dir)))"
  proof (cases "length (names dir) \<le> 10")
    case True
    then show ?thesis by (simp add: removeOldLogs_few [OF rd])
  next
    case False
    then have "10 < length (names dir)" by simp
    then show ?thesis
      using in_names not_victim
      by (simp add: removeOldLogs_many [OF rd] names_removeEntries subset_iff)
  qed
  show "set (names (fst (removeOldLogs dir))) \<subseteq> set (names dir)"
  proof (cases "length (names dir) \<le> 10")
    case True
    then show ?thesis by (simp add: removeOldLogs_few [OF rd])
  next
    case False
    then have "10 < length (names dir)" by simp
    then show ?thesis
      by (simp add: removeOldLogs_many [OF rd] names_removeEntries subset_iff)
  qed
qed

lemma removeEntries_succeeds:
  "(snd (removeEntries dir es) = None) = (\<forall>e \<in> set es. removeError dir e = None)"
proof -
  have "(snd (removeEntries dir es) = None)
          = (dropWhile (\<lambda>e. removeError dir e = None) es = [])"
  proof (cases "dropWhile (\<lambda>e. removeError dir e = None) es")
    case Nil
    show ?thesis
      unfolding removeEntries_general Nil by simp
  next
    case (Cons e rest)
    show ?thesis
      unfolding removeEntries_general Cons by simp
  qed
  then show ?thesis
    by (simp only: dropWhile_eq_Nil_conv)
qed

text \<open>
  With more than ten entries the call removes the entries before the last ten one after the
  other, as far as the removals succeed, and returns the error of the first one that fails.
\<close>

lemma removeOldLogs_exact:
  assumes "readError dir = None" and "10 < length (names dir)"
  shows "removeOldLogs dir =
     (dir\<lparr>names := filter
        (\<lambda>n. n \<notin> set (takeWhile (\<lambda>e. removeError dir e = None) (beforeLastTen dir)))
        (names dir)\<rparr>,
      case dropWhile (\<lambda>e. removeError dir e = None) (beforeLastTen dir) of
        [] \<Rightarrow> None
      | e # _ \<Rightarrow> Some (Errorf ''failed to remove old log entry: %w'' [] (removeError dir e)))"
  unfolding removeOldLogs_many [OF assms] beforeLastTen_def
  by (rule removeEntries_general)

lemma removeOldLogs_first_failure:
  assumes rd: "readError dir = None" and big: "10 < length (names dir)"
    and split: "beforeLastTen dir = before @ e # after"
    and ok: "\<forall>x \<in> set before. removeError dir x = None"
    and fail: "removeError dir e = Some err"
  shows "removeOldLogs dir =
     (dir\<lparr>names := filter (\<lambda>n. n \<notin> set before) (names dir)\<rparr>,
      Some (Errorf ''failed to remove old log entry: %w'' [] (Some err)))"
proof -
  let ?ok = "\<lambda>e. removeError dir e = None"
  have tw: "takeWhile ?ok (before @ e # after) = before"
    using ok fail by (simp add: takeWhile_append2)
  have dw: "dropWhile ?ok (before @ e # after) = e # after"
    using ok fail by (simp add: dropWhile_append2)
  show ?thesis
    unfolding removeOldLogs_exact [OF rd big] split tw dw by (simp add: fail)
qed

text \<open>
  C10, as the code has it. For a directory that can be read, whose names are distinct: with
  10 or fewer entries nothing is removed and the call succeeds. With more than 10, the
  entries before the last 10 of the sorted listing are removed one after the other, in
  sorted order, up to the first removal that fails: the directory is left with exactly the
  entries that were removed before that failure taken away, and the call returns that
  failure wrapped as \<^verbatim>\<open>failed to remove old log entry\<close>. So when the entries before the last
  10 are \<open>before\<close>, then \<open>e\<close>, then \<open>after\<close>, the removals of \<open>before\<close> succeed and the
  removal of \<open>e\<close> fails with \<open>err\<close>, exactly \<open>before\<close> is gone, \<open>e\<close> and \<open>after\<close> are still
  there, and the error wraps \<open>err\<close>. The call succeeds exactly when every one of these
  removals succeeds, and then exactly the last 10 entries of the sorted listing remain. In
  every case the last 10 are kept and no name is added.
\<close>

theorem removeOldLogs_keeps_last_ten:
  assumes "readError dir = None" and "distinct (names dir)"
  shows "(length (names dir) \<le> 10 \<longrightarrow> removeOldLogs dir = (dir, None))
       \<and> (10 < length (names dir) \<longrightarrow>
            removeOldLogs dir =
              (dir\<lparr>names := filter
                 (\<lambda>n. n \<notin> set (takeWhile (\<lambda>e. removeError dir e = None) (beforeLastTen dir)))
                 (names dir)\<rparr>,
               case dropWhile (\<lambda>e. removeError dir e = None) (beforeLastTen dir) of
                 [] \<Rightarrow> None
               | e # _ \<Rightarrow>
                   Some (Errorf ''failed to remove old log entry: %w'' [] (removeError dir e))))
       \<and> (10 < length (names dir) \<and> beforeLastTen dir = before @ e # after
            \<and> (\<forall>x \<in> set before. removeError dir x = None) \<and> removeError dir e = Some err \<longrightarrow>
            removeOldLogs dir =
              (dir\<lparr>names := filter (\<lambda>n. n \<notin> set before) (names dir)\<rparr>,
               Some (Errorf ''failed to remove old log entry: %w'' [] (Some err))))
       \<and> (10 < length (names dir) \<longrightarrow>
            (snd (removeOldLogs dir) = None)
              = (\<forall>e \<in> set (beforeLastTen dir). removeError dir e = None))
       \<and> (10 < length (names dir)
            \<and> (\<forall>e \<in> set (beforeLastTen dir). removeError dir e = None) \<longrightarrow>
            snd (removeOldLogs dir) = None
            \<and> sort (names (fst (removeOldLogs dir)))
                = drop (length (names dir) - 10) (sort (names dir))
            \<and> length (names (fst (removeOldLogs dir))) = 10)
       \<and> set (drop (length (names dir) - 10) (sort (names dir)))
            \<subseteq> set (names (fst (removeOldLogs dir)))
       \<and> set (names (fst (removeOldLogs dir))) \<subseteq> set (names dir)"
proof (intro conjI impI)
  show "removeOldLogs dir = (dir, None)" if "length (names dir) \<le> 10"
    using assms(1) that by (rule removeOldLogs_few)
  show "removeOldLogs dir =
      (dir\<lparr>names := filter
         (\<lambda>n. n \<notin> set (takeWhile (\<lambda>e. removeError dir e = None) (beforeLastTen dir)))
         (names dir)\<rparr>,
       case dropWhile (\<lambda>e. removeError dir e = None) (beforeLastTen dir) of
         [] \<Rightarrow> None
       | e # _ \<Rightarrow> Some (Errorf ''failed to remove old log entry: %w'' [] (removeError dir e)))"
    if "10 < length (names dir)"
    using assms(1) that by (rule removeOldLogs_exact)
  show "removeOldLogs dir =
      (dir\<lparr>names := filter (\<lambda>n. n \<notin> set before) (names dir)\<rparr>,
       Some (Errorf ''failed to remove old log entry: %w'' [] (Some err)))"
    if "10 < length (names dir) \<and> beforeLastTen dir = before @ e # after
        \<and> (\<forall>x \<in> set before. removeError dir x = None) \<and> removeError dir e = Some err"
    using that removeOldLogs_first_failure [OF assms(1), of before e after err] by blast
  show "(snd (removeOldLogs dir) = None)
          = (\<forall>e \<in> set (beforeLastTen dir). removeError dir e = None)"
    if "10 < length (names dir)"
    unfolding removeOldLogs_many [OF assms(1) that] beforeLastTen_def
    by (rule removeEntries_succeeds)
  show "snd (removeOldLogs dir) = None"
    "sort (names (fst (removeOldLogs dir))) = drop (length (names dir) - 10) (sort (names dir))"
    "length (names (fst (removeOldLogs dir))) = 10"
    if "10 < length (names dir) \<and> (\<forall>e \<in> set (beforeLastTen dir). removeError dir e = None)"
    using removeOldLogs_all_ok [OF assms] that unfolding beforeLastTen_def by simp_all
  show "set (drop (length (names dir) - 10) (sort (names dir)))
          \<subseteq> set (names (fst (removeOldLogs dir)))"
    "set (names (fst (removeOldLogs dir))) \<subseteq> set (names dir)"
    using assms by (rule removeOldLogs_keeps)+
qed

text \<open>
  Three entries stay as they are; of twelve removable ones the last ten stay; of twelve of
  which the second oldest cannot be removed, the oldest goes, the other eleven stay and the
  call returns the wrapped error of that removal.
\<close>

theorem removeOldLogs_keeps_last_ten_witness:
  "removeOldLogs smallDir = (smallDir, None)
   \<and> snd (removeOldLogs sampleDir) = None
   \<and> sort (names (fst (removeOldLogs sampleDir))) =
       [''1700000003-4242-cat-doorbell.log'', ''1700000004-4242-cat-doorbell.log'',
        ''1700000005-4242-cat-doorbell.log'', ''1700000006-4242-cat-doorbell.log'',
        ''1700000007-4242-cat-doorbell.log'', ''1700000008-4242-cat-doorbell.log'',
        ''1700000009-4242-cat-doorbell.log'', ''1700000010-4242-cat-doorbell.log'',
        ''1700000011-4242-cat-doorbell.log'', ''1700000012-4242-cat-doorbell.log'']
   \<and> length (names (fst (removeOldLogs sampleDir))) = 10
   \<and> removeOldLogs lockedDir =
       (lockedDir\<lparr>names :=
          filter (\<lambda>n. n \<notin> set [''1700000001-4242-cat-doorbell.log'']) (names lockedDir)\<rparr>,
        Some (Errorf ''failed to remove old log entry: %w'' []
                (Some (External ''remove: permission denied''))))
   \<and> sort (names (fst (removeOldLogs lockedDir))) =
       [''1700000002-4242-cat-doorbell.log'',
        ''1700000003-4242-cat-doorbell.log'', ''1700000004-4242-cat-doorbell.log'',
        ''1700000005-4242-cat-doorbell.log'', ''1700000006-4242-cat-doorbell.log'',
        ''1700000007-4242-cat-doorbell.log'', ''1700000008-4242-cat-doorbell.log'',
        ''1700000009-4242-cat-doorbell.log'', ''1700000010-4242-cat-doorbell.log'',
        ''1700000011-4242-cat-doorbell.log'', ''1700000012-4242-cat-doorbell.log'']"
proof -
  have small: "readError smallDir = None" "distinct (names smallDir)"
    "length (names smallDir) \<le> 10"
    by (simp_all add: smallDir_def sampleLogs_def)
  have sample: "readError sampleDir = None" "distinct (names sampleDir)"
    "length (names sampleDir) = 12" "names sampleDir = sampleLogs"
    "\<forall>e \<in> set (beforeLastTen sampleDir). removeError sampleDir e = None"
    by (simp_all add: sampleDir_def sampleLogs_def)
  have big: "10 < length (names sampleDir)"
    by (simp add: sampleDir_def sampleLogs_def)
  have locked: "readError lockedDir = None" "distinct (names lockedDir)"
    "10 < length (names lockedDir)"
    by (simp_all add: lockedDir_def sampleLogs_def)
  have lnames: "names lockedDir = sampleLogs"
    by (simp add: lockedDir_def)
  have l12: "length sampleLogs = 12"
    by (simp add: sampleLogs_def)
  have victims: "beforeLastTen lockedDir
      = [''1700000001-4242-cat-doorbell.log''] @ ''1700000002-4242-cat-doorbell.log'' # []"
    unfolding beforeLastTen_def lnames sort_sampleLogs l12 by simp
  have ok: "\<forall>x \<in> set [''1700000001-4242-cat-doorbell.log'']. removeError lockedDir x = None"
    by (simp add: lockedDir_def)
  have fail: "removeError lockedDir ''1700000002-4242-cat-doorbell.log''
      = Some (External ''remove: permission denied'')"
    by (simp add: lockedDir_def)
  have res: "removeOldLogs lockedDir =
       (lockedDir\<lparr>names :=
          filter (\<lambda>n. n \<notin> set [''1700000001-4242-cat-doorbell.log'']) (names lockedDir)\<rparr>,
        Some (Errorf ''failed to remove old log entry: %w'' []
                (Some (External ''remove: permission denied''))))"
    using removeOldLogs_keeps_last_ten [OF locked(1,2),
        of "[''1700000001-4242-cat-doorbell.log'']" "''1700000002-4242-cat-doorbell.log''" "[]"
          "External ''remove: permission denied''"]
      locked(3) victims ok fail
    by blast
  have srt: "sort (names (fst (removeOldLogs lockedDir))) =
       [''1700000002-4242-cat-doorbell.log'',
        ''1700000003-4242-cat-doorbell.log'', ''1700000004-4242-cat-doorbell.log'',
        ''1700000005-4242-cat-doorbell.log'', ''1700000006-4242-cat-doorbell.log'',
        ''1700000007-4242-cat-doorbell.log'', ''1700000008-4242-cat-doorbell.log'',
        ''1700000009-4242-cat-doorbell.log'', ''1700000010-4242-cat-doorbell.log'',
        ''1700000011-4242-cat-doorbell.log'', ''1700000012-4242-cat-doorbell.log'']"
    unfolding res fst_conv
    by (simp add: lnames filter_sort [symmetric] sort_sampleLogs)
  have smallres: "removeOldLogs smallDir = (smallDir, None)"
    using removeOldLogs_keeps_last_ten [OF small(1,2)] small(3) by blast
  have sampleres: "snd (removeOldLogs sampleDir) = None
     \<and> sort (names (fst (removeOldLogs sampleDir)))
         = drop (12 - 10) (sort (names sampleDir))
     \<and> length (names (fst (removeOldLogs sampleDir))) = 10"
    using removeOldLogs_keeps_last_ten [OF sample(1,2)] big sample(5)
    unfolding sample(3) by blast
  show ?thesis
    using smallres sampleres res srt by (simp add: sample(3,4) sort_sampleLogs)
qed

text \<open>
  Twelve entries of which the second oldest cannot be removed: the oldest is removed, the
  call fails, and eleven entries remain, not ten.
\<close>

theorem removeOldLogs_counterexample:
  "length (names lockedDir) = 12
   \<and> names (fst (removeOldLogs lockedDir)) = removeAll ''1700000001-4242-cat-doorbell.log'' sampleLogs
   \<and> length (names (fst (removeOldLogs lockedDir))) = 11
   \<and> snd (removeOldLogs lockedDir)
       = Some (Errorf ''failed to remove old log entry: %w'' []
                 (Some (External ''remove: permission denied'')))"
proof -
  have r: "ReadDir lockedDir = Inr (sort sampleLogs)"
    by (simp add: ReadDir_def lockedDir_def)
  have l: "length sampleLogs = 12"
    by (simp add: sampleLogs_def)
  have t: "take (length (sort sampleLogs) - 10) (sort sampleLogs)
      = [''1700000001-4242-cat-doorbell.log'', ''1700000002-4242-cat-doorbell.log'']"
    by (simp add: l) (simp add: sort_sampleLogs)
  have "removeOldLogs lockedDir = removeEntries lockedDir
      [''1700000001-4242-cat-doorbell.log'', ''1700000002-4242-cat-doorbell.log'']"
    unfolding removeOldLogs_def r by (simp only: t sum.case) (simp add: l)
  also have "\<dots> = (lockedDir\<lparr>names := removeAll ''1700000001-4242-cat-doorbell.log'' sampleLogs\<rparr>,
      Some (Errorf ''failed to remove old log entry: %w'' []
                 (Some (External ''remove: permission denied''))))"
    by (simp add: Remove_def lockedDir_def)
  finally show ?thesis
    by (simp add: lockedDir_def) (simp add: sampleLogs_def)
qed

section \<open>The identity matcher\<close>

lemma of_char_asciiLower:
  "(of_char (asciiLower c) :: nat) =
     (if 0x41 \<le> (of_char c :: nat) \<and> (of_char c :: nat) \<le> 0x5A then of_char c + 0x20
      else of_char c)"
  by (simp add: asciiLower_def)

lemma asciiLower_eq_iff:
  "(asciiLower a = asciiLower b) =
     ((of_char b :: nat) = of_char a
      \<or> asciiFoldPair (min (of_char a) (of_char b)) (max (of_char a) (of_char b)))"
proof -
  have "(asciiLower a = asciiLower b)
          = ((of_char (asciiLower a) :: nat) = of_char (asciiLower b))"
    by simp
  also have "\<dots> = ((of_char b :: nat) = of_char a
      \<or> asciiFoldPair (min (of_char a) (of_char b)) (max (of_char a) (of_char b)))"
    unfolding of_char_asciiLower asciiFoldPair_def min_def max_def by auto
  finally show ?thesis .
qed

lemma EqualFold_ascii:
  "isASCII x \<Longrightarrow> isASCII y \<Longrightarrow> EqualFold orbit x y = (map asciiLower x = map asciiLower y)"
proof (induction orbit x y rule: EqualFold.induct)
  case (1 orbit a s b t)
  then have ascii: "\<not> (RuneSelf \<le> (of_char a :: nat) \<or> RuneSelf \<le> (of_char b :: nat))"
    and rest: "isASCII s" "isASCII t"
    by (simp_all add: isASCII_def)
  show ?case
  proof (cases "(of_char b :: nat) = of_char a")
    case True
    with ascii rest "1.IH"(1) show ?thesis
      by (simp add: asciiLower_eq_iff)
  next
    case False
    show ?thesis
    proof (cases "asciiFoldPair (min (of_char a) (of_char b)) (max (of_char a) (of_char b))")
      case True
      with ascii rest False "1.IH"(2) show ?thesis
        by (simp add: asciiLower_eq_iff)
    next
      case nopair: False
      with ascii False show ?thesis
        by (simp add: asciiLower_eq_iff)
    qed
  qed
next
  case (2 orbit t)
  then show ?case by auto
next
  case (3 orbit a s)
  then show ?case by simp
qed

lemma runes_Nil [simp]: "runes [] = []"
  by (simp add: runes.simps)

lemma runes_nonempty: "s \<noteq> [] \<Longrightarrow> runes s = fst (DecodeRuneInString s) # runes (afterRune s)"
  by (subst runes.simps) simp

lemma decode_ascii_head:
  "t \<noteq> [] \<Longrightarrow> (of_char (hd t) :: nat) < RuneSelf \<Longrightarrow>
   fst (DecodeRuneInString t) = of_char (hd t) \<and> afterRune t = tl t"
  by (cases t) (simp_all add: afterRune_def)

lemma hasUnicode_Nil: "hasUnicode orbit [] t = (t = [])"
  by (subst hasUnicode.simps) simp

lemma hasUnicode_Nil2: "s \<noteq> [] \<Longrightarrow> hasUnicode orbit s [] = False"
  by (subst hasUnicode.simps) simp

lemma hasUnicode_runes:
  "hasUnicode orbit s t = list_all2 (foldEq orbit) (runes s) (runes t)"
proof (induction orbit s t rule: hasUnicode.induct)
  case (1 orbit s t)
  show ?case
  proof (cases "s = []")
    case True
    then show ?thesis
      by (cases "t = []") (simp_all add: hasUnicode_Nil runes_nonempty)
  next
    case sne: False
    show ?thesis
    proof (cases "t = []")
      case True
      with sne show ?thesis
        by (simp add: hasUnicode_Nil2 runes_nonempty)
    next
      case tne: False
      define sr0 where "sr0 = fst (DecodeRuneInString s)"
      define tr0 where "tr0 = (if (of_char (hd t) :: nat) < RuneSelf then of_char (hd t)
                   else fst (DecodeRuneInString t))"
      define t' where "t' = (if (of_char (hd t) :: nat) < RuneSelf then tl t else afterRune t)"
      have tr0: "tr0 = fst (DecodeRuneInString t)" and t': "t' = afterRune t"
        using decode_ascii_head [OF tne] by (auto simp: tr0_def t'_def)
      have unfold: "hasUnicode orbit s t =
         (if tr0 = sr0 then hasUnicode orbit (afterRune s) t'
          else if max sr0 tr0 < RuneSelf then
            (if asciiFoldPair (min sr0 tr0) (max sr0 tr0) then hasUnicode orbit (afterRune s) t' else False)
          else if orbit (min sr0 tr0) (max sr0 tr0) then hasUnicode orbit (afterRune s) t'
          else False)"
        unfolding sr0_def tr0_def t'_def
        by (subst hasUnicode.simps) (simp only: sne tne if_False Let_def)
      have ih: "hasUnicode orbit (afterRune s) t'
                  = list_all2 (foldEq orbit) (runes (afterRune s)) (runes t')"
        if "foldEq orbit sr0 tr0"
      proof (cases "tr0 = sr0")
        case True
        then show ?thesis
          using "1.IH"(1) [OF sne tne refl refl refl refl refl] 
          by (simp add: sr0_def tr0_def t'_def)
      next
        case False
        show ?thesis
        proof (cases "max sr0 tr0 < RuneSelf")
          case True
          with that False have "asciiFoldPair (min sr0 tr0) (max sr0 tr0)"
            by (auto simp: foldEq_def)
          with False True show ?thesis
            using "1.IH"(2) [OF sne tne refl refl refl refl refl]
            by (simp add: sr0_def tr0_def t'_def)
        next
          case nascii: False
          with that False have "orbit (min sr0 tr0) (max sr0 tr0)"
            by (auto simp: foldEq_def)
          with False nascii show ?thesis
            using "1.IH"(3) [OF sne tne refl refl refl refl refl]
            by (simp add: sr0_def tr0_def t'_def)
        qed
      qed
      have "hasUnicode orbit s t = (foldEq orbit sr0 tr0 \<and> hasUnicode orbit (afterRune s) t')"
        unfolding unfold foldEq_def by auto
      also have "\<dots> = (foldEq orbit sr0 tr0
                        \<and> list_all2 (foldEq orbit) (runes (afterRune s)) (runes t'))"
        using ih by blast
      also have "\<dots> = list_all2 (foldEq orbit) (runes s) (runes t)"
        using sne tne by (simp add: runes_nonempty sr0_def tr0 t')
      finally show ?thesis .
    qed
  qed
qed


lemma hasUnicode_ascii_heads:
  assumes "(of_char a :: nat) < RuneSelf" and "(of_char b :: nat) < RuneSelf"
  shows "hasUnicode orbit (a # s) (b # t) =
     (if (of_char b :: nat) = of_char a then hasUnicode orbit s t
      else if asciiFoldPair (min (of_char a) (of_char b)) (max (of_char a) (of_char b))
      then hasUnicode orbit s t
      else False)"
proof -
  have dec: "DecodeRuneInString (a # s) = (of_char a, 1)"
    using assms(1) by simp
  have aft: "afterRune (a # s) = s"
    unfolding afterRune_def dec by simp
  show ?thesis
    using assms by (subst hasUnicode.simps) (simp add: Let_def dec aft)
qed

lemma EqualFold_hasUnicode: "EqualFold orbit s t = hasUnicode orbit s t"
proof (induction orbit s t rule: EqualFold.induct)
  case (1 orbit a s b t)
  show ?case
  proof (cases "RuneSelf \<le> (of_char a :: nat) \<or> RuneSelf \<le> (of_char b :: nat)")
    case True
    then show ?thesis by simp
  next
    case False
    then have a: "(of_char a :: nat) < RuneSelf" and b: "(of_char b :: nat) < RuneSelf"
      by simp_all
    show ?thesis
      using False "1.IH" by (simp add: hasUnicode_ascii_heads [OF a b])
  qed
next
  case (2 orbit t)
  then show ?case by (auto simp: hasUnicode_Nil)
next
  case (3 orbit a s)
  then show ?case by (simp add: hasUnicode_Nil2)
qed

text \<open>
  C3, as the code has it. \<^verbatim>\<open>EqualFold\<close> is a function of its two arguments (and of the
  folding tables of the library). It accepts the example pair. On any two strings it
  compares the runes pairwise, without touching separators, where every byte that is not
  well-formed UTF-8 counts as U+FFFD. On identifiers made of ASCII bytes it holds exactly
  when the two agree up to the case of the letters, so it is false for every such pair
  that differs other than by letter case.
\<close>

theorem identity_matcher:
  "EqualFold orbit ''AA:BB:CC:DD:EE:FF'' ''aa:bb:cc:dd:ee:ff''
   \<and> EqualFold orbit x y = list_all2 (foldEq orbit) (runes x) (runes y)
   \<and> (isASCII x \<and> isASCII y \<longrightarrow>
        EqualFold orbit x y = (map asciiLower x = map asciiLower y))"
proof (intro conjI impI)
  show "EqualFold orbit ''AA:BB:CC:DD:EE:FF'' ''aa:bb:cc:dd:ee:ff''"
    by (simp add: RuneSelf_def asciiFoldPair_def)
  show "EqualFold orbit x y = list_all2 (foldEq orbit) (runes x) (runes y)"
    by (simp only: EqualFold_hasUnicode hasUnicode_runes)
  show "EqualFold orbit x y = (map asciiLower x = map asciiLower y)"
    if "isASCII x \<and> isASCII y"
    using that by (simp add: EqualFold_ascii)
qed

text \<open>Hyphens instead of colons do not match; mixed case does.\<close>

theorem identity_matcher_witness:
  "isASCII ''AA-BB-CC-DD-EE-FF'' \<and> isASCII ''aa:bb:cc:dd:ee:ff''
   \<and> \<not> EqualFold emptyFoldTable ''AA-BB-CC-DD-EE-FF'' ''aa:bb:cc:dd:ee:ff''
   \<and> isASCII ''Aa:bB:Cc:dD:Ee:fF''
   \<and> EqualFold emptyFoldTable ''Aa:bB:Cc:dD:Ee:fF'' ''aa:bb:cc:dd:ee:ff''
   \<and> runes ''a:b'' = [0x61, 0x3A, 0x62]"
proof -
  have ascii: "isASCII ''AA-BB-CC-DD-EE-FF''" "isASCII ''aa:bb:cc:dd:ee:ff''"
    "isASCII ''Aa:bB:Cc:dD:Ee:fF''"
    by (simp_all add: isASCII_def RuneSelf_def)
  have lower: "map asciiLower ''AA-BB-CC-DD-EE-FF'' = ''aa-bb-cc-dd-ee-ff''"
    "map asciiLower ''aa:bb:cc:dd:ee:ff'' = ''aa:bb:cc:dd:ee:ff''"
    "map asciiLower ''Aa:bB:Cc:dD:Ee:fF'' = ''aa:bb:cc:dd:ee:ff''"
    by (simp_all add: asciiLower_def char_of_eq_iff)
  have r: "runes ''a:b'' = [0x61, 0x3A, 0x62]"
    by (simp add: runes_nonempty afterRune_def RuneSelf_def)
  have e1: "EqualFold emptyFoldTable ''AA-BB-CC-DD-EE-FF'' ''aa:bb:cc:dd:ee:ff''
      = (map asciiLower ''AA-BB-CC-DD-EE-FF'' = map asciiLower ''aa:bb:cc:dd:ee:ff'')"
    using identity_matcher [of emptyFoldTable "''AA-BB-CC-DD-EE-FF''" "''aa:bb:cc:dd:ee:ff''"]
      ascii by blast
  have e2: "EqualFold emptyFoldTable ''Aa:bB:Cc:dD:Ee:fF'' ''aa:bb:cc:dd:ee:ff''
      = (map asciiLower ''Aa:bB:Cc:dD:Ee:fF'' = map asciiLower ''aa:bb:cc:dd:ee:ff'')"
    using identity_matcher [of emptyFoldTable "''Aa:bB:Cc:dD:Ee:fF''" "''aa:bb:cc:dd:ee:ff''"]
      ascii by blast
  show ?thesis
    unfolding e1 e2 lower using ascii r by simp
qed

text \<open>
  Two identifiers that differ other than by letter case and match all the same: the bytes
  FF and FE are both read as U+FFFD, and so the byte FF matches the encoding of U+FFFD.
  No folding table is consulted for them.
\<close>

theorem identity_matcher_counterexample:
  "EqualFold emptyFoldTable [CHR 0xFF] [CHR 0xFE]
   \<and> [CHR 0xFF] \<noteq> [CHR 0xFE]
   \<and> map asciiLower [CHR 0xFF] \<noteq> map asciiLower [CHR 0xFE]
   \<and> EqualFold emptyFoldTable [CHR 0xFF] [CHR 0xEF, CHR 0xBF, CHR 0xBD]
   \<and> map asciiLower [CHR 0xFF] \<noteq> map asciiLower [CHR 0xEF, CHR 0xBF, CHR 0xBD]"
proof -
  have 1: "EqualFold emptyFoldTable [CHR 0xFF] [CHR 0xFE]"
    by (simp add: RuneSelf_def hasUnicode.simps [of _ "[CHR 0xFF]"] hasUnicode_Nil
        afterRune_def Let_def)
  have 2: "EqualFold emptyFoldTable [CHR 0xFF] [CHR 0xEF, CHR 0xBF, CHR 0xBD]"
    by (simp add: RuneSelf_def RuneError_def hasUnicode.simps [of _ "[CHR 0xFF]"] hasUnicode_Nil
        afterRune_def Let_def)
  from 1 2 show ?thesis
    by (simp add: asciiLower_def char_of_eq_iff)
qed

section \<open>Payloads that are not text\<close>

lemma foldEq_RuneError:
  assumes "\<forall>r. \<not> orbit r RuneError \<and> \<not> orbit RuneError r"
    and "foldEq orbit RuneError b \<or> foldEq orbit b RuneError"
  shows "b = RuneError"
proof (rule ccontr)
  assume ne: "b \<noteq> RuneError"
  have big: "\<not> max RuneError b < RuneSelf" "\<not> max b RuneError < RuneSelf"
    by (simp_all add: RuneError_def RuneSelf_def)
  have "min RuneError b = RuneError \<or> max RuneError b = RuneError"
    by (auto simp: min_def max_def)
  moreover have "min b RuneError = RuneError \<or> max b RuneError = RuneError"
    by (auto simp: min_def max_def)
  ultimately show False
    using assms ne big unfolding foldEq_def by metis
qed

text \<open>
  A payload holding bytes that are not text (or the replacement character itself) never
  matches a target that is text without that character, for every folding table in which
  U+FFFD has no case variant, as is the case in Unicode.
\<close>

lemma garbled_never_matches:
  assumes "RuneError \<in> set (runes p)" and "RuneError \<notin> set (runes t)"
    and "\<forall>r. \<not> orbit r RuneError \<and> \<not> orbit RuneError r"
  shows "\<not> EqualFold orbit p t"
proof
  assume "EqualFold orbit p t"
  then have all2: "list_all2 (foldEq orbit) (runes p) (runes t)"
    by (simp only: EqualFold_hasUnicode hasUnicode_runes)
  from assms(1) obtain i where i: "i < length (runes p)" "runes p ! i = RuneError"
    by (auto simp: in_set_conv_nth)
  from all2 i have "foldEq orbit RuneError (runes t ! i)" and it: "i < length (runes t)"
    by (auto simp: list_all2_conv_all_nth)
  with assms(3) have "runes t ! i = RuneError"
    using foldEq_RuneError by blast
  with it assms(2) show False
    by (metis nth_mem)
qed

section \<open>Payloads that are not a hardware address\<close>

text \<open>Lead bytes of an encoding and what they contribute to the rune.\<close>

lemma mod_window: "q * n \<le> (x::nat) \<Longrightarrow> x < q * n + n \<Longrightarrow> x mod n = x - q * n"
proof -
  assume a: "q * n \<le> x" "x < q * n + n"
  then have "x = q * n + (x - q * n)" by simp
  then have "x mod n = (q * n + (x - q * n)) mod n" by simp
  also have "\<dots> = (x - q * n) mod n" by (simp only: mod_mult_self3)
  also have "\<dots> = x - q * n" using a by simp
  finally show ?thesis .
qed

lemma lead2: "194 \<le> s0 \<Longrightarrow> s0 < 224 \<Longrightarrow> 2 \<le> (s0::nat) mod 32"
  using mod_window [of 6 32 s0] by simp

lemma lead3: "224 < s0 \<Longrightarrow> s0 < 240 \<Longrightarrow> 1 \<le> (s0::nat) mod 16"
  using mod_window [of 14 16 s0] by simp

lemma second3: "160 \<le> s1 \<Longrightarrow> s1 \<le> 191 \<Longrightarrow> 32 \<le> (s1::nat) mod 64"
  using mod_window [of 2 64 s1] by simp

lemma lead4: "240 < s0 \<Longrightarrow> s0 \<le> 244 \<Longrightarrow> 1 \<le> (s0::nat) mod 8"
  using mod_window [of 30 8 s0] by simp

lemma second4: "144 \<le> s1 \<Longrightarrow> s1 \<le> 191 \<Longrightarrow> 16 \<le> (s1::nat) mod 64"
  using mod_window [of 2 64 s1] by simp

text \<open>A byte of 0x80 or more at the head of a string never decodes to an ASCII rune.\<close>

lemma decode_nonascii:
  assumes "RuneSelf \<le> (of_char c0 :: nat)"
  shows "RuneSelf \<le> fst (DecodeRuneInString (c0 # rest))"
proof -
  define s0 where "s0 = (of_char c0 :: nat)"
  define s1 where "s1 = (of_char (rest ! 0) :: nat)"
  define s2 where "s2 = (of_char (rest ! 1) :: nat)"
  define s3 where "s3 = (of_char (rest ! 2) :: nat)"
  have hi: "128 \<le> s0"
    using assms by (simp add: s0_def RuneSelf_def)
  consider (bad) "s0 < 194 \<or> 244 < s0"
    | (w2) "194 \<le> s0" "s0 < 224"
    | (w3) "224 \<le> s0" "s0 < 240"
    | (w4) "240 \<le> s0" "s0 \<le> 244"
    by linarith
  then have "128 \<le> fst (DecodeRuneInString (c0 # rest))"
  proof cases
    case bad
    then show ?thesis
      using hi by (auto simp: Let_def RuneSelf_def RuneError_def s0_def [symmetric])
  next
    case w2
    have "128 \<le> s0 mod 32 * 64"
      using lead2 [OF w2] by simp
    then show ?thesis
      using hi w2
      by (auto simp: Let_def RuneSelf_def RuneError_def s0_def [symmetric] s1_def [symmetric])
  next
    case w3
    have "128 \<le> s0 mod 16 * 4096 + s1 mod 64 * 64"
      if "s0 = 224 \<longrightarrow> 160 \<le> s1" "s1 \<le> 191"
    proof (cases "s0 = 224")
      case True
      with that second3 [of s1] show ?thesis by simp
    next
      case False
      with w3 lead3 [of s0] show ?thesis by simp
    qed
    then show ?thesis
      using hi w3
      by (auto simp: Let_def RuneSelf_def RuneError_def s0_def [symmetric] s1_def [symmetric]
          s2_def [symmetric])
  next
    case w4
    have "128 \<le> s0 mod 8 * 262144 + s1 mod 64 * 4096"
      if "s0 = 240 \<longrightarrow> 144 \<le> s1" "s1 \<le> 191"
    proof (cases "s0 = 240")
      case True
      with that second4 [of s1] show ?thesis by simp
    next
      case False
      with w4 lead4 [of s0] show ?thesis by simp
    qed
    then show ?thesis
      using hi w4
      by (auto simp: Let_def RuneSelf_def RuneError_def s0_def [symmetric] s1_def [symmetric]
          s2_def [symmetric] s3_def [symmetric])
  qed
  then show ?thesis
    by (simp add: RuneSelf_def)
qed

text \<open>
  An address is made of hexadecimal digits and colons, all ASCII; what matches an address
  up to letter case is an address.
\<close>

lemma addressByte_ascii: "addressByte c \<Longrightarrow> (of_char c :: nat) < RuneSelf"
  by (auto simp: addressByte_def isHexDigit_def RuneSelf_def)

lemma addressFrom_bytes: "addressFrom i t \<Longrightarrow> \<forall>c \<in> set t. addressByte c"
  by (induction t arbitrary: i) (auto simp: addressByte_def addressChar_def split: if_splits)

lemma addressChar_case:
  assumes "asciiLower a = asciiLower b" and "addressChar i b"
  shows "addressChar i a"
proof -
  from assms(1) have rel: "(of_char b :: nat) = of_char a
      \<or> asciiFoldPair (min (of_char a) (of_char b)) (max (of_char a) (of_char b))"
    by (simp only: asciiLower_eq_iff)
  show ?thesis
  proof (cases "i mod 3 = 2")
    case True
    with assms(2) have b: "b = CHR '':''"
      by (simp add: addressChar_def)
    with rel have "(of_char a :: nat) = of_char b"
      by (auto simp: asciiFoldPair_def min_def max_def split: if_splits)
    then have "a = b"
      by simp
    with True b show ?thesis
      by (simp add: addressChar_def)
  next
    case False
    with assms(2) have "isHexDigit b"
      by (simp add: addressChar_def)
    with rel have "isHexDigit a"
      by (auto simp: isHexDigit_def asciiFoldPair_def min_def max_def split: if_splits)
    with False show ?thesis
      by (simp add: addressChar_def)
  qed
qed

lemma addressFrom_case:
  "map asciiLower p = map asciiLower t \<Longrightarrow> addressFrom i t \<Longrightarrow> addressFrom i p"
proof (induction p arbitrary: i t)
  case Nil
  then show ?case by simp
next
  case (Cons a p)
  then obtain b t' where t: "t = b # t'"
    by (cases t) auto
  with Cons.prems have "asciiLower a = asciiLower b" "map asciiLower p = map asciiLower t'"
    "i < 17" "addressChar i b" "addressFrom (Suc i) t'"
    by simp_all
  then show ?case
    using Cons.IH [of t' "Suc i"] addressChar_case [of a b i] by simp
qed

text \<open>
  A string that starts with a byte of 0x80 or more matches one that starts with an ASCII
  byte only through an entry of the folding table for that ASCII byte.
\<close>

lemma nonascii_head_needs_table:
  assumes "RuneSelf \<le> (of_char a :: nat)" and "(of_char b :: nat) < RuneSelf"
    and "EqualFold orbit (a # s) (b # t)"
  shows "orbit (of_char b) (fst (DecodeRuneInString (a # s)))"
proof -
  let ?sr = "fst (DecodeRuneInString (a # s))"
  have big: "RuneSelf \<le> ?sr"
    using assms(1) by (rule decode_nonascii)
  from assms(3) have "list_all2 (foldEq orbit) (runes (a # s)) (runes (b # t))"
    by (simp only: EqualFold_hasUnicode hasUnicode_runes)
  moreover have "runes (a # s) = ?sr # runes (afterRune (a # s))"
    by (rule runes_nonempty) simp
  moreover have "runes (b # t) = of_char b # runes (afterRune (b # t))"
    using assms(2) decode_ascii_head [of "b # t"] by (simp add: runes_nonempty)
  ultimately have "foldEq orbit ?sr (of_char b)"
    by simp
  with big assms(2) show ?thesis
    by (auto simp: foldEq_def min_def max_def split: if_splits)
qed

lemma address_match_case:
  "\<forall>c r. addressByte c \<longrightarrow> RuneSelf \<le> r \<longrightarrow> \<not> orbit (of_char c) r \<Longrightarrow>
   \<forall>c \<in> set t. addressByte c \<Longrightarrow> EqualFold orbit p t \<Longrightarrow>
   map asciiLower p = map asciiLower t"
proof (induction orbit p t rule: EqualFold.induct)
  case (1 orbit a s b t)
  have b: "addressByte b" and rest: "\<forall>c \<in> set t. addressByte c"
    using "1.prems"(2) by simp_all
  have bl: "(of_char b :: nat) < RuneSelf"
    using b by (rule addressByte_ascii)
  have al: "(of_char a :: nat) < RuneSelf"
  proof (rule ccontr)
    assume "\<not> (of_char a :: nat) < RuneSelf"
    then have a: "RuneSelf \<le> (of_char a :: nat)" by simp
    from nonascii_head_needs_table [OF a bl "1.prems"(3)] decode_nonascii [OF a, of s]
      "1.prems"(1) b
    show False by blast
  qed
  have fast: "\<not> (RuneSelf \<le> (of_char a :: nat) \<or> RuneSelf \<le> (of_char b :: nat))"
    using al bl by simp
  show ?case
  proof (cases "(of_char b :: nat) = of_char a")
    case True
    with fast "1.prems"(3) have "EqualFold orbit s t"
      by simp
    with "1.IH"(1) [OF fast True "1.prems"(1) rest] True show ?thesis
      by (simp add: asciiLower_eq_iff)
  next
    case False
    with fast "1.prems"(3)
    have pair: "asciiFoldPair (min (of_char a) (of_char b)) (max (of_char a) (of_char b))"
      and tl: "EqualFold orbit s t"
      by (simp_all split: if_splits)
    with "1.IH"(2) [OF fast False pair "1.prems"(1) rest] show ?thesis
      by (simp add: asciiLower_eq_iff)
  qed
next
  case (2 orbit t)
  then show ?case by auto
next
  case (3 orbit a s)
  then show ?case by simp
qed

text \<open>
  C8, as the code has it. The configured target is a hardware address in textual form and
  the payload is not one; the folding table gives no hexadecimal digit and no colon a case
  variant outside ASCII, as is the case for the table of Unicode. Then the call logs the
  received payload and does nothing else: the sighting is not accepted, \<^verbatim>\<open>lastDetected\<close> is
  unchanged, no alert is raised, and nothing but that one debug record is produced, no
  warning and no error.
\<close>

theorem malformed_payload_ignored:
  assumes "isHardwareAddress (TargetMAC conf)"
      and "\<not> isHardwareAddress (payload d)"
      and "\<forall>c r. addressByte c \<longrightarrow> RuneSelf \<le> r \<longrightarrow> \<not> orbit (of_char c) r"
  shows "onMessage orbit conf icon lastDetected d
           = (lastDetected, [LogDebug ''Received beacon from device'' (payload d)])
       \<and> \<not> accepted (snd (onMessage orbit conf icon lastDetected d))
       \<and> \<not> list_ex isAlert (snd (onMessage orbit conf icon lastDetected d))"
proof -
  have nomatch: "\<not> EqualFold orbit (payload d) (TargetMAC conf)"
  proof
    assume m: "EqualFold orbit (payload d) (TargetMAC conf)"
    have "\<forall>c \<in> set (TargetMAC conf). addressByte c"
      using assms(1) unfolding isHardwareAddress_def by (rule addressFrom_bytes)
    from address_match_case [OF assms(3) this m]
    have "map asciiLower (payload d) = map asciiLower (TargetMAC conf)" .
    with assms(1) have "isHardwareAddress (payload d)"
      unfolding isHardwareAddress_def by (rule addressFrom_case [rotated])
    with assms(2) show False by simp
  qed
  then show ?thesis
    by (simp add: onMessage_def Let_def accepted_def isDetection_def isAlert_def isVisual_def
        isAudio_def)
qed

text \<open>
  Against the target \<^verbatim>\<open>aa:bb:cc:dd:ee:ff\<close>: an empty payload, a truncated address, bytes that
  are not text, and an address written with hyphens.
\<close>

theorem malformed_payload_ignored_witness:
  "isHardwareAddress (TargetMAC exampleConfig)
   \<and> \<not> isHardwareAddress []
   \<and> onMessage emptyFoldTable exampleConfig iconPath zeroTime (beaconAt [] 0)
     = (zeroTime, [LogDebug ''Received beacon from device'' []])
   \<and> \<not> isHardwareAddress ''AA:BB:CC''
   \<and> onMessage emptyFoldTable exampleConfig iconPath zeroTime (beaconAt ''AA:BB:CC'' 0)
     = (zeroTime, [LogDebug ''Received beacon from device'' ''AA:BB:CC''])
   \<and> \<not> isHardwareAddress [CHR 0xFF, CHR 0xFE, CHR ''a'']
   \<and> onMessage emptyFoldTable exampleConfig iconPath zeroTime
        (beaconAt [CHR 0xFF, CHR 0xFE, CHR ''a''] 0)
     = (zeroTime, [LogDebug ''Received beacon from device'' [CHR 0xFF, CHR 0xFE, CHR ''a'']])
   \<and> \<not> isHardwareAddress ''AA-BB-CC-DD-EE-FF''
   \<and> onMessage emptyFoldTable exampleConfig iconPath zeroTime
        (beaconAt ''AA-BB-CC-DD-EE-FF'' 0)
     = (zeroTime, [LogDebug ''Received beacon from device'' ''AA-BB-CC-DD-EE-FF''])"
proof -
  have target: "isHardwareAddress (TargetMAC exampleConfig)"
    by (simp add: exampleConfig_def isHardwareAddress_def addressChar_def isHexDigit_def)
  have table: "\<forall>c r. addressByte c \<longrightarrow> RuneSelf \<le> r \<longrightarrow> \<not> emptyFoldTable (of_char c) r"
    by (simp add: emptyFoldTable_def)
  have bad: "\<not> isHardwareAddress []" "\<not> isHardwareAddress ''AA:BB:CC''"
    "\<not> isHardwareAddress [CHR 0xFF, CHR 0xFE, CHR ''a'']"
    "\<not> isHardwareAddress ''AA-BB-CC-DD-EE-FF''"
    by (simp_all add: isHardwareAddress_def addressChar_def isHexDigit_def)
  have p: "payload (beaconAt m 0) = m" for m
    by (simp add: beaconAt_def)
  from malformed_payload_ignored [OF target _ table, of "beaconAt [] 0" iconPath zeroTime]
    malformed_payload_ignored [OF target _ table, of "beaconAt ''AA:BB:CC'' 0" iconPath zeroTime]
    malformed_payload_ignored [OF target _ table,
      of "beaconAt [CHR 0xFF, CHR 0xFE, CHR ''a''] 0" iconPath zeroTime]
    malformed_payload_ignored [OF target _ table,
      of "beaconAt ''AA-BB-CC-DD-EE-FF'' 0" iconPath zeroTime]
    target bad
  show ?thesis
    by (simp only: p simp_thms)
qed

lemma isAlert_notify: "isAlert (BeeepNotify a b c)"
  by (simp add: isAlert_def isVisual_def)

text \<open>
  Without the condition on the target the property fails. The byte 0xFF is no address, yet
  against a target that is the encoding of U+FFFD it matches, is accepted at process start,
  sets \<^verbatim>\<open>lastDetected\<close> and raises the alert; and so does the empty payload against the
  target of a configuration that sets none.
\<close>

theorem malformed_payload_counterexample:
  "\<not> isHardwareAddress [CHR 0xFF]
   \<and> fst (onMessage emptyFoldTable replacementConfig iconPath zeroTime (beaconAt [CHR 0xFF] 0))
       = timeNow (nowClock (beaconAt [CHR 0xFF] 0))
   \<and> accepted
        (snd (onMessage emptyFoldTable replacementConfig iconPath zeroTime (beaconAt [CHR 0xFF] 0)))
   \<and> list_ex isAlert
        (snd (onMessage emptyFoldTable replacementConfig iconPath zeroTime (beaconAt [CHR 0xFF] 0)))
   \<and> \<not> isHardwareAddress []
   \<and> fst (onMessage emptyFoldTable emptyConfig iconPath zeroTime (beaconAt [] 0))
       = timeNow (nowClock (beaconAt [] 0))
   \<and> accepted (snd (onMessage emptyFoldTable emptyConfig iconPath zeroTime (beaconAt [] 0)))
   \<and> list_ex isAlert (snd (onMessage emptyFoldTable emptyConfig iconPath zeroTime (beaconAt [] 0)))"
proof -
  have bad: "\<not> isHardwareAddress [CHR 0xFF]" "\<not> isHardwareAddress []"
    by (simp_all add: isHardwareAddress_def addressChar_def isHexDigit_def)
  have m1: "EqualFold emptyFoldTable (payload (beaconAt [CHR 0xFF] 0)) (TargetMAC replacementConfig)"
    by (simp add: beaconAt_def replacementConfig_def RuneSelf_def RuneError_def
        hasUnicode.simps [of _ "[CHR 0xFF]"] hasUnicode_Nil afterRune_def Let_def)
  have m2: "EqualFold emptyFoldTable (payload (beaconAt [] 0)) (TargetMAC emptyConfig)"
    by (simp add: beaconAt_def emptyConfig_def)
  have due: "cd \<le>s timeSince (sinceClock (beaconAt m 0)) zeroTime" for cd m
    by (rule timeSince_zeroTime) (simp add: beaconAt_def)
  have a1: "list_ex isAlert
      (snd (onMessage emptyFoldTable replacementConfig iconPath zeroTime (beaconAt [CHR 0xFF] 0)))"
    by (simp add: snd_onMessage_accept [OF m1 due] isAlert_notify)
  have a2: "list_ex isAlert
      (snd (onMessage emptyFoldTable emptyConfig iconPath zeroTime (beaconAt [] 0)))"
    by (simp add: snd_onMessage_accept [OF m2 due] isAlert_notify)
  show ?thesis
    using bad a1 a2 due
    by (simp add: accepted_onMessage [OF m1] accepted_onMessage [OF m2]
        fst_onMessage [OF m1] fst_onMessage [OF m2])
qed

end
